theory Spec2Isabelle
  imports Complex_Main "HOL-Library.Multiset"
begin

section \<open>Python strings\<close>

text \<open>
  A Python \<open>str\<close> is modelled as a \<open>string\<close> of ASCII characters. \<open>str.lower()\<close> maps
  the 26 capital letters to their small letters and leaves every other character alone;
  \<open>str.strip()\<close> removes leading and trailing white space, which for ASCII is the
  characters 0x09 to 0x0D, 0x1C to 0x1F and the blank. Characters beyond ASCII, which
  Python lower-cases by the Unicode tables, are outside this model.
\<close>

definition ascii_uppercase :: string where
  "ascii_uppercase = ''ABCDEFGHIJKLMNOPQRSTUVWXYZ''"

definition ascii_lowercase :: string where
  "ascii_lowercase = ''abcdefghijklmnopqrstuvwxyz''"

definition lower_char :: "char \<Rightarrow> char" where
  "lower_char c =
     (case map_of (zip ascii_uppercase ascii_lowercase) c of None \<Rightarrow> c | Some d \<Rightarrow> d)"

definition lower :: "string \<Rightarrow> string" where
  "lower s = map lower_char s"

definition whitespace :: string where
  "whitespace =
     [CHR 0x09, CHR 0x0A, CHR 0x0B, CHR 0x0C, CHR 0x0D,
      CHR 0x1C, CHR 0x1D, CHR 0x1E, CHR 0x1F, CHR 0x20]"

definition isspace :: "char \<Rightarrow> bool" where
  "isspace c = (c \<in> set whitespace)"

definition strip :: "string \<Rightarrow> string" where
  "strip s = rev (dropWhile isspace (rev (dropWhile isspace s)))"

text \<open>\<open>p in s\<close> on strings: \<open>p\<close> occurs in \<open>s\<close> as a contiguous piece.\<close>

fun starts_with :: "string \<Rightarrow> string \<Rightarrow> bool" where
  "starts_with [] s = True"
| "starts_with (p # ps) [] = False"
| "starts_with (p # ps) (c # cs) = (p = c \<and> starts_with ps cs)"

fun str_contains :: "string \<Rightarrow> string \<Rightarrow> bool" where
  "str_contains p [] = (p = [])"
| "str_contains p (c # cs) = (starts_with p (c # cs) \<or> str_contains p cs)"

lemmas str_defs =
  lower_def lower_char_def strip_def isspace_def whitespace_def
  ascii_uppercase_def ascii_lowercase_def

section \<open>The pizza assistant (pizza.py)\<close>

subsection \<open>Tables and the order record\<close>

text \<open>
  A price is a number of cents: the source writes the four prices as decimal literals with
  two places and only ever prints them with two places, it never computes with them.
  The dictionaries keep their insertion order, so they are association lists.
\<close>

type_synonym price = nat

definition available_ingredients :: "(string \<times> string list) list" where
  "available_ingredients =
     [(''meats'', [''pepperoni'', ''sausage'', ''ham'', ''bacon'', ''chicken'', ''beef'', ''salami'']),
      (''vegetables'', [''mushrooms'', ''onions'', ''bell peppers'', ''tomatoes'', ''olives'',
                        ''spinach'', ''arugula'', ''basil'', ''garlic'']),
      (''cheeses'', [''mozzarella'', ''cheddar'', ''parmesan'', ''feta'', ''goat cheese'']),
      (''sauces'', [''tomato sauce'', ''white sauce'', ''pesto'', ''bbq sauce'', ''ranch''])]"

definition pizza_sizes :: "(string \<times> price \<times> string) list" where
  "pizza_sizes =
     [(''small'', 1299, ''10 inch''),
      (''medium'', 1599, ''12 inch''),
      (''large'', 1899, ''14 inch''),
      (''extra large'', 2199, ''16 inch'')]"

record order =
  size_field :: "string option"
  ingredients :: "string list"
  total_price :: price
  confirmed :: bool

definition current_order :: order where
  "current_order = \<lparr>size_field = None, ingredients = [], total_price = 0, confirmed = False\<rparr>"

definition typo_map :: "(string \<times> string) list" where
  "typo_map =
     [(''peperoni'', ''pepperoni''),
      (''pepperoni'', ''pepperoni''),
      (''mozarela'', ''mozzarella''),
      (''mozzarela'', ''mozzarella''),
      (''mozzarella'', ''mozzarella''),
      (''mushroom'', ''mushrooms''),
      (''mushroms'', ''mushrooms''),
      (''mashrooms'', ''mushrooms''),
      (''onion'', ''onions''),
      (''tomatoe'', ''tomatoes''),
      (''olive'', ''olives''),
      (''bellpepper'', ''bell peppers''),
      (''bell pepper'', ''bell peppers''),
      (''green pepper'', ''bell peppers''),
      (''cheese'', ''mozzarella'')]"

text \<open>
  What an operation answers. The source returns formatted text; a reply here is the
  sentence that was chosen together with the values the source puts into it.
  \<open>NoReply\<close> is Python's \<open>None\<close>, returned when a function body runs off its end.
\<close>

datatype py_error = KeyError string | IndexError | CollaboratorError string | PatternError string

datatype reply =
    SizeSetAdded string string price "string list"
  | UnknownSize "string list"
  | Added string
  | AlreadyHave string
  | NotAvailable string
  | SizeSet string string price
  | Removed string
  | NotOnPizza string
  | NoSizeYet
  | OrderSummary string string price "string list" price
  | SelectSizeFirst
  | AddToppingsFirst
  | OrderConfirmed string "string list" price
  | AvailableIngredients "(string \<times> string list) list"
  | NotUnderstood
  | ModelText string
  | HappyToHelp
  | ErrorReply py_error
  | NoReply

subsection \<open>The operations\<close>

definition normalize_ingredient :: "string \<Rightarrow> string" where
  "normalize_ingredient ingredient =
     (let ingredient' = strip (lower ingredient)
      in case map_of typo_map ingredient' of Some v \<Rightarrow> v | None \<Rightarrow> ingredient')"

definition all_ingredients :: "string list" where
  "all_ingredients = concat (map (\<lambda>(name, category). map lower category) available_ingredients)"

text \<open>The first entry of a category whose lower-cased form is the normalized name.\<close>

fun first_match :: "string \<Rightarrow> string list \<Rightarrow> string option" where
  "first_match n [] = None"
| "first_match n (orig_ingredient # rest) =
     (if lower orig_ingredient = n then Some orig_ingredient else first_match n rest)"

text \<open>
  \<open>create_pizza_with_size\<close>: the inner loop stops at its first match (\<open>break\<close>), the outer
  loop goes on through the remaining categories, and every match is appended without
  looking at what the order already holds. \<open>if main_ingredient:\<close> is false for \<open>None\<close>
  and for the empty string.
\<close>

definition create_pizza_with_size :: "string \<Rightarrow> string option \<Rightarrow> order \<Rightarrow> reply \<times> order" where
  "create_pizza_with_size size_arg main_ingredient ord =
     (let sz = strip (lower size_arg) in
      case map_of pizza_sizes sz of
        Some (price, description) \<Rightarrow>
          (let added =
             (case main_ingredient of
                None \<Rightarrow> []
              | Some m \<Rightarrow>
                  if m = [] then []
                  else
                    let normalized_ingredient = normalize_ingredient m in
                    if normalized_ingredient \<in> set all_ingredients
                    then List.map_filter
                           (\<lambda>(name, category). first_match normalized_ingredient category)
                           available_ingredients
                    else [])
           in (SizeSetAdded sz description price added,
               ord\<lparr>size_field := Some sz, ingredients := ingredients ord @ added\<rparr>))
      | None \<Rightarrow> (UnknownSize (map fst pizza_sizes), ord))"

definition add_ingredient :: "string \<Rightarrow> order \<Rightarrow> reply \<times> order" where
  "add_ingredient ingredient ord =
     (let normalized_ingredient = normalize_ingredient ingredient in
      if normalized_ingredient \<in> set all_ingredients then
        if normalized_ingredient \<notin> set (map lower (ingredients ord)) then
          (case first_match normalized_ingredient (concat (map snd available_ingredients)) of
             Some orig_ingredient \<Rightarrow>
               (Added orig_ingredient, ord\<lparr>ingredients := ingredients ord @ [orig_ingredient]\<rparr>)
           | None \<Rightarrow> (NoReply, ord))
        else (AlreadyHave normalized_ingredient, ord)
      else (NotAvailable ingredient, ord))"

definition set_pizza_size :: "string \<Rightarrow> order \<Rightarrow> reply \<times> order" where
  "set_pizza_size size_arg ord =
     (let sz = strip (lower size_arg) in
      case map_of pizza_sizes sz of
        Some (price, description) \<Rightarrow> (SizeSet sz description price, ord\<lparr>size_field := Some sz\<rparr>)
      | None \<Rightarrow> (UnknownSize (map fst pizza_sizes), ord))"

text \<open>\<open>pop(i)\<close> at the first index whose entry lower-cases to the name.\<close>

fun pop_first :: "string \<Rightarrow> string list \<Rightarrow> (string \<times> string list) option" where
  "pop_first n [] = None"
| "pop_first n (ing # rest) =
     (if lower ing = n then Some (ing, rest)
      else (case pop_first n rest of
              None \<Rightarrow> None
            | Some (removed, rest') \<Rightarrow> Some (removed, ing # rest')))"

definition remove_ingredient :: "string \<Rightarrow> order \<Rightarrow> reply \<times> order" where
  "remove_ingredient ingredient ord =
     (let ingredient' = strip (lower ingredient) in
      case pop_first ingredient' (ingredients ord) of
        Some (removed, rest) \<Rightarrow> (Removed removed, ord\<lparr>ingredients := rest\<rparr>)
      | None \<Rightarrow> (NotOnPizza ingredient', ord))"

text \<open>
  \<open>not self.current_order["size"]\<close> holds for \<open>None\<close> and for the empty string. The
  subscript \<open>self.pizza_sizes[...]\<close> raises \<open>KeyError\<close> for a size that is not in the table.
\<close>

definition size_unset :: "order \<Rightarrow> bool" where
  "size_unset ord = (size_field ord = None \<or> size_field ord = Some [])"

definition show_current_order :: "order \<Rightarrow> (py_error + reply) \<times> order" where
  "show_current_order ord =
     (if size_unset ord then (Inr NoSizeYet, ord)
      else
        let sz = the (size_field ord) in
        case map_of pizza_sizes sz of
          None \<Rightarrow> (Inl (KeyError sz), ord)
        | Some (price, description) \<Rightarrow>
            (Inr (OrderSummary sz description price (ingredients ord) price), ord))"

definition confirm_order :: "order \<Rightarrow> (py_error + reply) \<times> order" where
  "confirm_order ord =
     (if size_unset ord then (Inr SelectSizeFirst, ord)
      else if ingredients ord = [] then (Inr AddToppingsFirst, ord)
      else
        let ord' = ord\<lparr>confirmed := True\<rparr>;
            sz = the (size_field ord')
        in case map_of pizza_sizes sz of
             None \<Rightarrow> (Inl (KeyError sz), ord')
           | Some (price, description) \<Rightarrow>
               (Inr (OrderConfirmed sz (ingredients ord') price), ord'))"

definition show_available_ingredients :: "order \<Rightarrow> reply \<times> order" where
  "show_available_ingredients ord = (AvailableIngredients available_ingredients, ord)"

text \<open>
  The dispatcher. The parameters are a dictionary from names to strings, as the function
  declarations sent to the collaborator give every parameter the type string.
\<close>

definition param_get :: "(string \<times> string) list \<Rightarrow> string \<Rightarrow> string \<Rightarrow> string" where
  "param_get parameters key dflt = (case map_of parameters key of Some v \<Rightarrow> v | None \<Rightarrow> dflt)"

definition ok :: "reply \<times> order \<Rightarrow> (py_error + reply) \<times> order" where
  "ok r = (Inr (fst r), snd r)"

definition execute_function ::
  "string \<Rightarrow> (string \<times> string) list \<Rightarrow> order \<Rightarrow> (py_error + reply) \<times> order" where
  "execute_function function_name parameters ord =
     (if function_name = ''create_pizza_with_size'' then
        ok (create_pizza_with_size (param_get parameters ''size'' [])
              (map_of parameters ''main_ingredient'') ord)
      else if function_name = ''add_ingredient'' then
        ok (add_ingredient (param_get parameters ''ingredient'' []) ord)
      else if function_name = ''set_pizza_size'' then
        ok (set_pizza_size (param_get parameters ''size'' []) ord)
      else if function_name = ''remove_ingredient'' then
        ok (remove_ingredient (param_get parameters ''ingredient'' []) ord)
      else if function_name = ''show_current_order'' then show_current_order ord
      else if function_name = ''confirm_order'' then confirm_order ord
      else if function_name = ''show_available_ingredients'' then
        ok (show_available_ingredients ord)
      else (Inr NotUnderstood, ord))"

subsection \<open>The chat entry point\<close>

text \<open>
  The text-generation collaborator is a parameter: given the order (it is part of the
  prompt) and the customer's message, it raises or answers with the parts of its first
  candidate. A part is a function call, a text, or neither. What a turn does besides
  computing is recorded as a list of effects.
\<close>

datatype part = FunctionCall string "(string \<times> string) list" | Text string | OtherPart

datatype gen_result = Raised string | Parts "part list"

datatype intent = author_search | title_search | similarity_search

datatype effect = ModelCall | Dispatch string | Retrieval intent string | RandomChoice

definition done_phrases :: "string list" where
  "done_phrases =
     [''that all'', ''thats all'', ''that'' @ [CHR 0x27] @ ''s all'', ''done'', ''finish'', ''complete'']"

text \<open>The \<open>except Exception\<close> of \<open>chat\<close>: an exception becomes an apology, the order stays
  as the failed operation left it.\<close>

definition catch :: "(py_error + reply) \<times> order \<Rightarrow> reply \<times> order" where
  "catch r = (case fst r of Inl e \<Rightarrow> (ErrorReply e, snd r) | Inr a \<Rightarrow> (a, snd r))"

text \<open>The loop over the parts returns at the first function call or non-empty text. Its
  two branches for a function call do the same thing, as in the source.\<close>

fun first_part :: "part list \<Rightarrow> order \<Rightarrow> ((reply \<times> order) \<times> effect list) option" where
  "first_part [] ord = None"
| "first_part (FunctionCall function_name parameters # rest) ord =
     (if function_name = ''set_pizza_size'' \<and> ingredients ord = []
      then Some (catch (execute_function function_name parameters ord), [Dispatch function_name])
      else Some (catch (execute_function function_name parameters ord), [Dispatch function_name]))"
| "first_part (Text t # rest) ord =
     (if t \<noteq> [] then Some ((ModelText t, ord), []) else first_part rest ord)"
| "first_part (OtherPart # rest) ord = first_part rest ord"

definition pizza_chat ::
  "(order \<Rightarrow> string \<Rightarrow> gen_result) \<Rightarrow> string \<Rightarrow> order \<Rightarrow> (reply \<times> order) \<times> effect list" where
  "pizza_chat generate_content user_message ord =
     (let user_lower = strip (lower user_message) in
      if list_ex (\<lambda>phrase. str_contains phrase user_lower) done_phrases then
        (if \<not> size_unset ord \<and> ingredients ord \<noteq> []
         then (catch (confirm_order ord), [])
         else (catch (show_current_order ord), []))
      else
        (case generate_content ord user_message of
           Raised e \<Rightarrow> ((ErrorReply (CollaboratorError e), ord), [ModelCall])
         | Parts parts \<Rightarrow>
             (case first_part parts ord of
                Some (r, effs) \<Rightarrow> (r, ModelCall # effs)
              | None \<Rightarrow> ((HappyToHelp, ord), [ModelCall]))))"

text \<open>One turn of the console loop of \<open>main\<close>: the line is trimmed, a quit word ends the
  loop, and \<open>chat\<close> is called only for a line that is not empty.\<close>

datatype turn = Quit | Answered "(reply \<times> order) \<times> effect list" | Skipped

definition main_turn ::
  "(order \<Rightarrow> string \<Rightarrow> gen_result) \<Rightarrow> string \<Rightarrow> order \<Rightarrow> turn" where
  "main_turn generate_content line ord =
     (let user_input = strip line in
      if lower user_input \<in> set [''quit'', ''exit'', ''bye''] then Quit
      else if user_input \<noteq> [] then Answered (pizza_chat generate_content user_input ord)
      else Skipped)"

text \<open>A run of the dispatcher over a list of commands, each a name with its parameters.\<close>

fun run :: "(string \<times> (string \<times> string) list) list \<Rightarrow> order \<Rightarrow> order" where
  "run [] ord = ord"
| "run ((function_name, parameters) # rest) ord =
     run rest (snd (execute_function function_name parameters ord))"

text \<open>The invariants of the order record: the size is unset or one of the four tiers, and
  the ingredients are entries of the catalog, each at most once.\<close>

definition size_valid :: "order \<Rightarrow> bool" where
  "size_valid ord =
     (case size_field ord of None \<Rightarrow> True | Some s \<Rightarrow> s \<in> set (map fst pizza_sizes))"

definition catalog :: "string list" where
  "catalog = concat (map snd available_ingredients)"

definition from_catalog :: "order \<Rightarrow> bool" where
  "from_catalog ord = list_all (\<lambda>ing. ing \<in> set catalog) (ingredients ord)"

definition price_of :: "string \<Rightarrow> price" where
  "price_of s = (case map_of pizza_sizes s of Some (price, description) \<Rightarrow> price | None \<Rightarrow> 0)"

definition is_confirmation :: "py_error + reply \<Rightarrow> bool" where
  "is_confirmation r = (case r of Inr (OrderConfirmed s ings amount) \<Rightarrow> True | _ \<Rightarrow> False)"

text \<open>The order of the worked example: a large pizza with olives.\<close>

definition large_olives :: order where
  "large_olives = \<lparr>size_field = Some ''large'', ingredients = [''olives''], total_price = 0, confirmed = False\<rparr>"


text \<open>The description of a tier, and the worked example once confirmed.\<close>

definition description_of :: "string \<Rightarrow> string" where
  "description_of s = (case map_of pizza_sizes s of Some (price, description) \<Rightarrow> description | None \<Rightarrow> [])"

definition confirmed_olives :: order where
  "confirmed_olives = large_olives\<lparr>confirmed := True\<rparr>"

section \<open>The book assistant (books.py)\<close>

subsection \<open>The catalog table and its loader\<close>

text \<open>
  A data frame is a list of named columns, each a series of cells, as pandas stores it. A
  cell is missing (\<open>NaN\<close>), a string, or a number or truth value (\<open>Num\<close>; its value plays no
  part in the loader). The frame is the one \<open>pd.read_csv\<close> gives: its column names are
  distinct, its series have one length, and a column holds strings and missing cells, or
  numbers and missing cells, never both strings and numbers.
\<close>

datatype cell = NaN | Str string | Num

type_synonym series = "cell list"
type_synonym dataframe = "(string \<times> series) list"

definition df_columns :: "dataframe \<Rightarrow> string list" where
  "df_columns df = map fst df"

definition df_col :: "dataframe \<Rightarrow> string \<Rightarrow> series" where
  "df_col df c = (case map_of df c of Some s \<Rightarrow> s | None \<Rightarrow> [])"

definition df_len :: "dataframe \<Rightarrow> nat" where
  "df_len df = (case df of [] \<Rightarrow> 0 | (c, s) # rest \<Rightarrow> length s)"

definition is_text :: "cell \<Rightarrow> bool" where
  "is_text x = (case x of Str u \<Rightarrow> True | _ \<Rightarrow> False)"

definition wf_frame :: "dataframe \<Rightarrow> bool" where
  "wf_frame df =
     (distinct (map fst df)
      \<and> list_all (\<lambda>(c, s). length s = df_len df) df
      \<and> list_all (\<lambda>(c, s). list_all (\<lambda>x. x \<noteq> Num) s \<or> list_all (\<lambda>x. \<not> is_text x) s) df)"

text \<open>
  The type pandas gives a column when it reads it: a column with rows and no string in it
  (all numbers, or all cells missing) is a numeric column; every other column holds
  objects. Dropping rows does not change the type of a column.
\<close>

definition numeric :: "series \<Rightarrow> bool" where
  "numeric s = (s \<noteq> [] \<and> list_all (\<lambda>x. \<not> is_text x) s)"

definition required_columns :: "string list" where
  "required_columns = [''title'', ''author'', ''description'']"

text \<open>\<open>df.dropna(subset=...)\<close> keeps the rows that have a value in every column of the subset.\<close>

definition complete_rows :: "string list \<Rightarrow> dataframe \<Rightarrow> nat list" where
  "complete_rows cols df =
     filter (\<lambda>i. list_all (\<lambda>c. df_col df c ! i \<noteq> NaN) cols) [0..<df_len df]"

definition dropna :: "string list \<Rightarrow> dataframe \<Rightarrow> dataframe" where
  "dropna cols df = map (\<lambda>(c, s). (c, map (\<lambda>i. s ! i) (complete_rows cols df))) df"

text \<open>
  \<open>+\<close> on a series of objects and a string, and on two series, cell by cell. A string
  added to a number raises \<open>TypeError\<close> (the result \<open>None\<close>); a missing cell on either side
  gives a missing cell.
\<close>

definition add_str :: "series \<Rightarrow> string \<Rightarrow> series option" where
  "add_str a t =
     (if list_ex (\<lambda>x. x = Num) a then None
      else Some (map (\<lambda>x. case x of Str u \<Rightarrow> Str (u @ t) | _ \<Rightarrow> NaN) a))"

definition add_series :: "series \<Rightarrow> series \<Rightarrow> series option" where
  "add_series a b =
     (if list_ex (\<lambda>(x, y). (is_text x \<and> y = Num) \<or> (x = Num \<and> is_text y)) (zip a b) then None
      else Some (map (\<lambda>(x, y). case x of
                                  NaN \<Rightarrow> NaN
                                | Str u \<Rightarrow> (case y of Str v \<Rightarrow> Str (u @ v) | _ \<Rightarrow> NaN)
                                | Num \<Rightarrow> (case y of Num \<Rightarrow> Num | _ \<Rightarrow> NaN))
                     (zip a b)))"

text \<open>\<open>.str.strip()\<close> on a series of objects: a cell that is not a string becomes missing.\<close>

definition str_strip :: "series \<Rightarrow> series" where
  "str_strip a = map (\<lambda>x. case x of Str u \<Rightarrow> Str (strip u) | _ \<Rightarrow> NaN) a"

text \<open>\<open>df[c] = s\<close> replaces the column when the frame has it and appends it otherwise.\<close>

definition df_assign :: "dataframe \<Rightarrow> string \<Rightarrow> series \<Rightarrow> dataframe" where
  "df_assign df c s =
     (if c \<in> set (map fst df)
      then map (\<lambda>(n, old). if n = c then (n, s) else (n, old)) df
      else df @ [(c, s)])"

text \<open>\<open>str\<close> of a list of plain strings: \<open>['title', 'author']\<close>.\<close>

fun join :: "string \<Rightarrow> string list \<Rightarrow> string" where
  "join sep [] = []"
| "join sep [x] = x"
| "join sep (x # y # ys) = x @ sep @ join sep (y # ys)"

definition py_str_list :: "string list \<Rightarrow> string" where
  "py_str_list xs = ''['' @ join '', '' (map (\<lambda>x. [CHR 0x27] @ x @ [CHR 0x27]) xs) @ '']''"

text \<open>
  What \<open>load_books_data\<close> raises: an \<open>Exception\<close> with the message given, or an \<open>Exception\<close>
  whose message is \<open>Error loading books data:\<close> followed by the message of the error that
  pandas raised on a column that is not text (\<open>PandasError\<close>; that message is not modelled).
\<close>

datatype load_error = LoadError string | PandasError

text \<open>
  \<open>load_books_data\<close> takes what \<open>pd.read_csv\<close> gave: the message of the exception it raised,
  or the frame. \<open>df['title'] + ' '\<close> raises on a numeric title column, with or without
  rows; the later sums raise where a string meets a number; \<open>.str\<close> raises on a numeric
  column. \<open>combined_text\<close> is built from the title and author as read, before they are
  trimmed.
\<close>

definition load_books_data :: "string + dataframe \<Rightarrow> load_error + dataframe" where
  "load_books_data read_csv =
     (case read_csv of
        Inl e \<Rightarrow> Inl (LoadError (''Error loading books data: '' @ e))
      | Inr df \<Rightarrow>
          let missing_columns = filter (\<lambda>col. col \<notin> set (df_columns df)) required_columns in
          if missing_columns \<noteq> [] then
            Inl (LoadError (''Error loading books data: '' @
                            ''Missing required columns: '' @ py_str_list missing_columns))
          else
            let df1 = dropna required_columns df in
            if numeric (df_col df ''title'') then Inl PandasError
            else
              (case Option.bind (add_str (df_col df1 ''title'') '' '')
                      (\<lambda>t. Option.bind (add_series t (df_col df1 ''author''))
                        (\<lambda>ta. Option.bind (add_str ta '' '')
                          (\<lambda>tas. add_series tas (df_col df1 ''description'')))) of
                 None \<Rightarrow> Inl PandasError
               | Some combined_text \<Rightarrow>
                   let df2 = df_assign df1 ''combined_text'' combined_text;
                       df3 = df_assign df2 ''title'' (str_strip (df_col df2 ''title''))
                   in if numeric (df_col df ''author'') then Inl PandasError
                      else Inr (df_assign df3 ''author'' (str_strip (df_col df3 ''author'')))))"

subsection \<open>Ranking by similarity\<close>

text \<open>
  A recommendation is the dictionary the search functions build: the three fields of the
  book, and either its similarity score or the kind of match.
\<close>

datatype extra = similarity_score rat | match_type string

record recommendation =
  title :: cell
  author :: cell
  description :: cell
  extra :: extra

text \<open>
  The threshold is the double that Python reads for the literal \<open>0.01\<close>; it lies just above
  one hundredth. Scores are doubles, hence rationals.
\<close>

definition min_similarity :: rat where
  "min_similarity = 5764607523034235 / 2 ^ 59"

text \<open>\<open>xs[:k]\<close>: a negative \<open>k\<close> counts from the end.\<close>

definition py_take :: "int \<Rightarrow> 'a list \<Rightarrow> 'a list" where
  "py_take k xs = (if 0 \<le> k then take (nat k) xs else take (nat (int (length xs) + k)) xs)"

text \<open>
  \<open>find_similar_books\<close>. The vectorizer and \<open>cosine_similarity\<close> are the scikit-learn
  collaborators: \<open>similarities\<close> is the score vector they give for the query, one score
  per book. \<open>argsort\<close> is numpy's: it returns the indices of the scores in ascending order
  of score.
\<close>

fun recommend :: "rat list \<Rightarrow> dataframe \<Rightarrow> nat list \<Rightarrow> py_error + recommendation list" where
  "recommend similarities df [] = Inr []"
| "recommend similarities df (idx # rest) =
     (if length similarities \<le> idx then Inl IndexError
      else if similarities ! idx > min_similarity then
        (if df_len df \<le> idx then Inl IndexError
         else (case recommend similarities df rest of
                 Inl e \<Rightarrow> Inl e
               | Inr recommendations \<Rightarrow>
                   Inr (\<lparr>title = df_col df ''title'' ! idx,
                         author = df_col df ''author'' ! idx,
                         description = df_col df ''description'' ! idx,
                         extra = similarity_score (similarities ! idx)\<rparr> # recommendations)))
      else recommend similarities df rest)"

definition similar_indices :: "(rat list \<Rightarrow> nat list) \<Rightarrow> rat list \<Rightarrow> int \<Rightarrow> nat list" where
  "similar_indices argsort similarities num_recommendations =
     py_take num_recommendations (rev (argsort similarities))"

definition find_similar_books ::
  "(rat list \<Rightarrow> nat list) \<Rightarrow> (string \<Rightarrow> rat list) \<Rightarrow> dataframe \<Rightarrow> string \<Rightarrow> int
   \<Rightarrow> py_error + recommendation list" where
  "find_similar_books argsort cosine_similarity books_df query num_recommendations =
     (let similarities = cosine_similarity query
      in recommend similarities books_df
           (similar_indices argsort similarities num_recommendations))"

text \<open>What numpy promises of \<open>argsort\<close>: a permutation of the indices that sorts the scores.\<close>

definition is_argsort :: "nat list \<Rightarrow> rat list \<Rightarrow> bool" where
  "is_argsort idxs xs =
     (length idxs = length xs \<and> list_all (\<lambda>i. i \<in> set idxs) [0..<length xs]
      \<and> sorted (map (\<lambda>i. xs ! i) idxs))"

text \<open>An \<open>argsort\<close> that keeps equal scores in index order, as an insertion sort does.\<close>

definition stable_argsort :: "rat list \<Rightarrow> nat list" where
  "stable_argsort xs = sort_key (\<lambda>i. xs ! i) [0..<length xs]"

definition score_of :: "recommendation \<Rightarrow> rat" where
  "score_of r = (case extra r of similarity_score x \<Rightarrow> x | match_type m \<Rightarrow> 0)"

text \<open>A catalog of two books, for the worked examples.\<close>

definition two_books :: dataframe where
  "two_books =
     [(''title'', [Str ''A'', Str ''B'']),
      (''author'', [Str ''a'', Str ''b'']),
      (''description'', [Str ''x'', Str ''y''])]"

subsection \<open>Intent detection\<close>

text \<open>
  The ten patterns of \<open>detect_intent\<close> are sequences of three kinds of items: a literal
  character, an optional character (\<open>s?\<close>), and the one group \<open>(.+)\<close>. \<open>re_match\<close> matches a
  pattern at the start of a string the way Python's backtracking matcher does: the
  optional character is tried first, the group takes as many characters as it can (any
  character but the newline, at least one) and gives them back one at a time. The result
  is the text of the group. \<open>re_search\<close> tries every start position from left to right.
\<close>

datatype re_item = Chr char | Opt char | Group

fun first_some :: "'a option list \<Rightarrow> 'a option" where
  "first_some [] = None"
| "first_some (None # rest) = first_some rest"
| "first_some (Some x # rest) = Some x"

fun re_match :: "re_item list \<Rightarrow> string \<Rightarrow> string \<Rightarrow> string option" where
  "re_match [] s captured = Some captured"
| "re_match (Chr c # r) s captured =
     (case s of [] \<Rightarrow> None | x # xs \<Rightarrow> if x = c then re_match r xs captured else None)"
| "re_match (Opt c # r) s captured =
     (case s of
        [] \<Rightarrow> re_match r [] captured
      | x # xs \<Rightarrow>
          if x = c
          then (case re_match r xs captured of
                  Some g \<Rightarrow> Some g
                | None \<Rightarrow> re_match r (x # xs) captured)
          else re_match r (x # xs) captured)"
| "re_match (Group # r) s captured =
     first_some
       (map (\<lambda>n. re_match r (drop n s) (take n s))
            (rev [1..<Suc (length (takeWhile (\<lambda>c. c \<noteq> CHR 0x0A) s))]))"

fun re_search :: "re_item list \<Rightarrow> string \<Rightarrow> string option" where
  "re_search p [] = re_match p [] []"
| "re_search p (c # cs) =
     (case re_match p (c # cs) [] of Some g \<Rightarrow> Some g | None \<Rightarrow> re_search p cs)"

definition lit :: "string \<Rightarrow> re_item list" where
  "lit s = map Chr s"

definition author_patterns :: "re_item list list" where
  "author_patterns =
     [lit ''book'' @ [Opt CHR ''s''] @ lit '' by '' @ [Group],
      [Group] @ lit ([CHR 0x27] @ ''s book'') @ [Opt CHR ''s''],
      lit ''author '' @ [Group],
      lit ''written by '' @ [Group],
      lit ''from '' @ [Group] @ lit '' author'']"

definition title_patterns :: "re_item list list" where
  "title_patterns =
     [lit ''book called '' @ [Group],
      lit ''title '' @ [Group],
      lit ''book titled '' @ [Group],
      lit ''looking for '' @ [Group],
      lit ''find '' @ [Group]]"

text \<open>The \<open>for\<close> loop over a pattern list: the group of the first pattern that matches.\<close>

fun first_pattern :: "re_item list list \<Rightarrow> string \<Rightarrow> string option" where
  "first_pattern [] s = None"
| "first_pattern (pattern # rest) s =
     (case re_search pattern s of Some g \<Rightarrow> Some g | None \<Rightarrow> first_pattern rest s)"

definition detect_intent :: "string \<Rightarrow> intent \<times> string" where
  "detect_intent user_input =
     (let user_input_lower = lower user_input in
      case first_pattern author_patterns user_input_lower of
        Some g \<Rightarrow> (author_search, strip g)
      | None \<Rightarrow>
          (case first_pattern title_patterns user_input_lower of
             Some g \<Rightarrow> (title_search, strip g)
           | None \<Rightarrow> (similarity_search, user_input)))"

subsection \<open>The chat entry point of the book assistant\<close>

text \<open>
  The collaborators of the book assistant are parameters: numpy's \<open>argsort\<close>; the score
  vector of the vectorizer and \<open>cosine_similarity\<close>; pandas' \<open>str.contains\<close>, which gives a
  mask over a series or raises on a pattern it cannot read (\<open>None\<close>); the text generator,
  which answers or raises (\<open>None\<close>); and the index that \<open>random.choice\<close> draws. The time
  stamp of a history entry, read from the clock, is left out of the entry.
\<close>

record collaborators =
  argsort :: "rat list \<Rightarrow> nat list"
  cosine_similarity :: "string \<Rightarrow> rat list"
  str_contains_ci :: "string \<Rightarrow> series \<Rightarrow> bool list option"
  generate_text :: "string \<Rightarrow> recommendation list \<Rightarrow> string option"
  random_choice :: nat

datatype book_reply =
    AskForInput
  | Greeting nat
  | Farewell
  | NoResults nat string
  | Generated string
  | FallbackListing string "recommendation list"

datatype history_entry = UserInput string | BotResponse book_reply nat

record chatbot =
  books_df :: dataframe
  conversation_history :: "history_entry list"

definition matches_of ::
  "collaborators \<Rightarrow> dataframe \<Rightarrow> string \<Rightarrow> string \<Rightarrow> nat \<Rightarrow> string
   \<Rightarrow> py_error + recommendation list" where
  "matches_of env df column query cap kind =
     (case str_contains_ci env query (df_col df column) of
        None \<Rightarrow> Inl (PatternError query)
      | Some hits \<Rightarrow>
          Inr (map (\<lambda>i. \<lparr>title = df_col df ''title'' ! i,
                          author = df_col df ''author'' ! i,
                          description = df_col df ''description'' ! i,
                          extra = match_type kind\<rparr>)
                   (take cap (filter (\<lambda>i. i < length hits \<and> hits ! i) [0..<df_len df]))))"

definition search_by_title ::
  "collaborators \<Rightarrow> dataframe \<Rightarrow> string \<Rightarrow> py_error + recommendation list" where
  "search_by_title env df title_query = matches_of env df ''title'' title_query 10 ''title_match''"

definition get_recommendations_by_author ::
  "collaborators \<Rightarrow> dataframe \<Rightarrow> string \<Rightarrow> py_error + recommendation list" where
  "get_recommendations_by_author env df author_query =
     matches_of env df ''author'' author_query 8 ''author_match''"

definition generate_human_response ::
  "collaborators \<Rightarrow> recommendation list \<Rightarrow> string \<Rightarrow> book_reply \<times> effect list" where
  "generate_human_response env recommendations user_input =
     (if recommendations = [] then (NoResults (random_choice env) user_input, [RandomChoice])
      else (case generate_text env user_input (take 3 recommendations) of
              Some answer \<Rightarrow> (Generated answer, [ModelCall])
            | None \<Rightarrow> (FallbackListing user_input (take 3 recommendations), [ModelCall])))"

definition book_chat ::
  "collaborators \<Rightarrow> string \<Rightarrow> chatbot \<Rightarrow> ((py_error + book_reply) \<times> chatbot) \<times> effect list" where
  "book_chat env user_input self =
     (if strip user_input = [] then ((Inr AskForInput, self), [])
      else
        let self1 = self\<lparr>conversation_history := conversation_history self @ [UserInput user_input]\<rparr>
        in
        if lower user_input \<in> set [''hello'', ''hi'', ''hey'']
        then ((Inr (Greeting (random_choice env)), self1), [RandomChoice])
        else if lower user_input \<in> set [''bye'', ''goodbye'', ''exit'', ''quit'']
        then ((Inr Farewell, self1), [])
        else
          let intent_data = detect_intent user_input;
              found =
                (if fst intent_data = author_search
                 then get_recommendations_by_author env (books_df self1) (snd intent_data)
                 else if fst intent_data = title_search
                 then search_by_title env (books_df self1) (snd intent_data)
                 else find_similar_books (argsort env) (cosine_similarity env) (books_df self1)
                        (snd intent_data) 5)
          in (case found of
                Inl e \<Rightarrow> ((Inl e, self1), [Retrieval (fst intent_data) (snd intent_data)])
              | Inr recommendations \<Rightarrow>
                  let response = generate_human_response env recommendations user_input
                  in ((Inr (fst response),
                       self1\<lparr>conversation_history :=
                              conversation_history self1
                                @ [BotResponse (fst response) (length recommendations)]\<rparr>),
                      Retrieval (fst intent_data) (snd intent_data) # snd response)))"

text \<open>A collaborator of the pizza assistant that answers every message with a call of
  \<open>add_ingredient\<close> for ham.\<close>

definition adds_ham :: "order \<Rightarrow> string \<Rightarrow> gen_result" where
  "adds_ham ord user_message = Parts [FunctionCall ''add_ingredient'' [(''ingredient'', ''ham'')]]"

text \<open>Collaborators that find nothing and a text generator that fails, and an assistant
  over the catalog of two books with no history.\<close>

definition quiet_env :: collaborators where
  "quiet_env =
     \<lparr>argsort = stable_argsort,
      cosine_similarity = (\<lambda>query. [0, 0]),
      str_contains_ci = (\<lambda>query s. Some (map (\<lambda>c. False) s)),
      generate_text = (\<lambda>user_input recommendations. None),
      random_choice = 0\<rparr>"

definition two_book_bot :: chatbot where
  "two_book_bot = \<lparr>books_df = two_books, conversation_history = []\<rparr>"

text \<open>Example frames: three rows, the second without a title, and a column of years;
  a frame without an author column; a frame whose only title is two blanks; and a frame
  whose titles are all missing.\<close>

definition three_rows :: dataframe where
  "three_rows =
     [(''title'', [Str '' Dune '', NaN, Str ''Emma'']),
      (''year'', [Num, Num, NaN]),
      (''author'', [Str ''Herbert'', Str ''x'', Str '' Austen'']),
      (''description'', [Str ''sand'', Str ''y'', Str ''love''])]"

definition no_author :: dataframe where
  "no_author = [(''title'', [Str ''Dune'']), (''Author'', [Str ''Herbert''])]"

definition blank_title :: dataframe where
  "blank_title =
     [(''title'', [Str ''  '']), (''author'', [Str ''a'']), (''description'', [Str ''d''])]"

definition no_titles :: dataframe where
  "no_titles =
     [(''title'', [NaN, NaN]),
      (''author'', [Str ''a'', Str ''b'']),
      (''description'', [Str ''d'', Str ''e''])]"

text \<open>The recommendation built from the book at an index, and the indices whose books
  \<open>find_similar_books\<close> returns, in the order it returns them.\<close>

definition entry_of :: "rat list \<Rightarrow> dataframe \<Rightarrow> nat \<Rightarrow> recommendation" where
  "entry_of similarities df idx =
     \<lparr>title = df_col df ''title'' ! idx,
      author = df_col df ''author'' ! idx,
      description = df_col df ''description'' ! idx,
      extra = similarity_score (similarities ! idx)\<rparr>"

definition ranked_indices :: "(rat list \<Rightarrow> nat list) \<Rightarrow> rat list \<Rightarrow> int \<Rightarrow> nat list" where
  "ranked_indices sorter similarities num_recommendations =
     filter (\<lambda>idx. similarities ! idx > min_similarity)
       (similar_indices sorter similarities num_recommendations)"

text \<open>A catalog of three books with the scores of some query, and the catalog of two books
  with equal scores.\<close>

definition three_books :: dataframe where
  "three_books =
     [(''title'', [Str ''A'', Str ''B'', Str ''C'']),
      (''author'', [Str ''a'', Str ''b'', Str ''c'']),
      (''description'', [Str ''x'', Str ''y'', Str ''z''])]"

definition some_scores :: "string \<Rightarrow> rat list" where
  "some_scores query = [1 / 2, 1 / 200, 3 / 4]"

definition tied_scores :: "string \<Rightarrow> rat list" where
  "tied_scores query = [1 / 2, 1 / 2]"

section \<open>Properties of the pizza assistant\<close>

lemma lower_char_idem: "lower_char (lower_char c) = lower_char c"
  by (simp add: lower_char_def ascii_uppercase_def ascii_lowercase_def)

lemma lower_idem: "lower (lower s) = lower s"
  by (simp add: lower_def lower_char_idem)

text \<open>Lower-casing and trimming commute, and each is idempotent.\<close>

lemma isspace_lower_char: "isspace (lower_char c) = isspace c"
  by (simp add: lower_char_def ascii_uppercase_def ascii_lowercase_def isspace_def whitespace_def)

lemma dropWhile_isspace_lower:
  "dropWhile isspace (map lower_char s) = map lower_char (dropWhile isspace s)"
  by (induction s) (simp_all add: isspace_lower_char)

lemma lower_strip: "lower (strip s) = strip (lower s)"
  by (simp add: lower_def strip_def rev_map dropWhile_isspace_lower)

lemma dropWhile_rev_dropWhile:
  fixes P :: "'a \<Rightarrow> bool"
  shows "dropWhile P (rev (dropWhile P (rev (dropWhile P s)))) = rev (dropWhile P (rev (dropWhile P s)))"
proof -
  define d where "d = dropWhile P s"
  define r where "r = dropWhile P (rev d)"
  have "dropWhile P (rev r) = rev r"
  proof (cases r)
    case Nil
    then show ?thesis by simp
  next
    case (Cons y ys)
    then have rne: "r \<noteq> []" by simp
    have split: "rev d = takeWhile P (rev d) @ r"
      unfolding r_def by simp
    with rne have dne: "d \<noteq> []" by auto
    from split rne have "last (rev d) = last r"
      by (metis last_appendR)
    moreover from dne have "last (rev d) = hd d" by (simp add: last_rev)
    moreover from dne have "\<not> P (hd d)" unfolding d_def by (rule hd_dropWhile)
    ultimately have np: "\<not> P (last r)" by simp
    from rne have "hd (rev r) = last r" by (simp add: hd_rev)
    with np have "\<not> P (hd (rev r))" by simp
    moreover from rne have "rev r \<noteq> []" by simp
    ultimately show ?thesis by (cases "rev r") simp_all
  qed
  then show ?thesis unfolding r_def d_def .
qed

lemma strip_idem: "strip (strip s) = strip s"
  unfolding strip_def
  by (simp only: dropWhile_rev_dropWhile rev_rev_ident dropWhile_idem)

lemma typo_map_values:
  "list_all (\<lambda>(k, v). lower v = v \<and> strip v = v) typo_map"
  by code_simp

lemma normalize_ingredient_normal:
  "lower (normalize_ingredient raw) = normalize_ingredient raw
   \<and> strip (normalize_ingredient raw) = normalize_ingredient raw"
proof (cases "map_of typo_map (strip (lower raw))")
  case None
  then have "normalize_ingredient raw = strip (lower raw)"
    by (simp add: normalize_ingredient_def)
  then show ?thesis
    by (simp add: strip_idem lower_strip lower_idem)
next
  case (Some v)
  then have "(strip (lower raw), v) \<in> set typo_map" by (rule map_of_SomeD)
  with typo_map_values have "lower v = v \<and> strip v = v"
    by (auto simp: list_all_iff)
  moreover from Some have "normalize_ingredient raw = v"
    by (simp add: normalize_ingredient_def)
  ultimately show ?thesis by simp
qed

lemma normalize_ingredient_insensitive:
  "normalize_ingredient (lower raw) = normalize_ingredient raw
   \<and> normalize_ingredient (strip raw) = normalize_ingredient raw"
  by (simp add: normalize_ingredient_def lower_idem lower_strip strip_idem)

text \<open>
  C9. \<open>normalize_ingredient\<close> lower-cases and trims its argument and looks the result up in
  the typo table: it returns the table's entry when there is one, and the lower-cased,
  trimmed argument otherwise. So its result is always lower-case and trimmed, and it does
  not depend on the case of its argument or on white space around it. \<open>peperoni\<close> and
  \<open>pepperoni\<close>, in any case and with blanks around, normalize to \<open>pepperoni\<close>.
\<close>

theorem normalize_ingredient_lookup:
  "normalize_ingredient raw =
     (if strip (lower raw) \<in> set (map fst typo_map)
      then the (map_of typo_map (strip (lower raw)))
      else strip (lower raw))
   \<and> lower (normalize_ingredient raw) = normalize_ingredient raw
   \<and> strip (normalize_ingredient raw) = normalize_ingredient raw
   \<and> normalize_ingredient (lower raw) = normalize_ingredient raw
   \<and> normalize_ingredient (strip raw) = normalize_ingredient raw
   \<and> normalize_ingredient ''peperoni'' = ''pepperoni''
   \<and> normalize_ingredient ''pepperoni'' = ''pepperoni''
   \<and> normalize_ingredient ''  PePeRoNi '' = ''pepperoni''
   \<and> normalize_ingredient ''Bell Pepper'' = ''bell peppers''
   \<and> normalize_ingredient '' Ham '' = ''ham''"
proof -
  have a: "normalize_ingredient raw =
     (if strip (lower raw) \<in> set (map fst typo_map)
      then the (map_of typo_map (strip (lower raw)))
      else strip (lower raw))"
  proof (cases "map_of typo_map (strip (lower raw))")
    case None
    then have "strip (lower raw) \<notin> set (map fst typo_map)"
      by (simp add: map_of_eq_None_iff)
    with None show ?thesis by (simp add: normalize_ingredient_def)
  next
    case (Some v)
    then have "strip (lower raw) \<in> set (map fst typo_map)"
      by (metis map_of_eq_None_iff option.distinct(1) set_map)
    with Some show ?thesis by (simp add: normalize_ingredient_def)
  qed
  have e1: "normalize_ingredient ''peperoni'' = ''pepperoni''" by code_simp
  have e2: "normalize_ingredient ''pepperoni'' = ''pepperoni''" by code_simp
  have e3: "normalize_ingredient ''  PePeRoNi '' = ''pepperoni''" by code_simp
  have e4: "normalize_ingredient ''Bell Pepper'' = ''bell peppers''" by code_simp
  have e5: "normalize_ingredient '' Ham '' = ''ham''" by code_simp
  from a normalize_ingredient_normal [of raw] normalize_ingredient_insensitive [of raw]
    e1 e2 e3 e4 e5
  show ?thesis by blast
qed

text \<open>
  An argument that is not in the table is not returned as it was given: \<open>Ham\<close> between
  two blanks has no entry, and what comes back is \<open>ham\<close>.
\<close>

theorem normalize_ingredient_unchanged_counterexample:
  "map_of typo_map (strip (lower '' Ham '')) = None
   \<and> normalize_ingredient '' Ham '' = ''ham''
   \<and> normalize_ingredient '' Ham '' \<noteq> '' Ham ''"
  by code_simp

lemma map_of_pizza_sizes_Some:
  "map_of pizza_sizes s = Some pd \<Longrightarrow> s \<in> set (map fst pizza_sizes)"
  by (metis map_of_eq_None_iff option.distinct(1) set_map)

lemma map_of_pizza_sizes_mem:
  "s \<in> set (map fst pizza_sizes) \<Longrightarrow> \<exists>p d. map_of pizza_sizes s = Some (p, d)"
  by (metis map_of_eq_None_iff not_None_eq set_map surj_pair)

lemma map_of_pizza_sizes_None:
  "s \<notin> set (map fst pizza_sizes) \<Longrightarrow> map_of pizza_sizes s = None"
  by (simp add: map_of_eq_None_iff)

lemma tier_not_empty: "s \<in> set (map fst pizza_sizes) \<Longrightarrow> s \<noteq> []"
  by (auto simp: pizza_sizes_def)

lemma first_match_mem: "first_match n xs = Some x \<Longrightarrow> x \<in> set xs \<and> lower x = n"
  by (induction xs) (auto split: if_splits)

lemma pop_first_set:
  "pop_first n xs = Some (r, rest) \<Longrightarrow> set rest \<subseteq> set xs \<and> (distinct xs \<longrightarrow> distinct rest)"
proof (induction xs arbitrary: rest)
  case Nil
  then show ?case by simp
next
  case (Cons x xs)
  show ?case
  proof (cases "lower x = n")
    case True
    with Cons.prems show ?thesis by auto
  next
    case False
    with Cons.prems obtain rest' where r: "pop_first n xs = Some (r, rest')" and e: "rest = x # rest'"
      by (auto split: option.splits)
    from Cons.IH [OF r] e show ?thesis by auto
  qed
qed

text \<open>Every operation keeps the size unset or one of the four tiers.\<close>

lemma set_pizza_size_valid: "size_valid ord \<Longrightarrow> size_valid (snd (set_pizza_size s ord))"
  by (auto simp: set_pizza_size_def size_valid_def Let_def split: option.splits
      dest: map_of_pizza_sizes_Some)

lemma create_pizza_with_size_valid:
  "size_valid ord \<Longrightarrow> size_valid (snd (create_pizza_with_size s m ord))"
  by (auto simp: create_pizza_with_size_def size_valid_def Let_def split: option.splits
      dest: map_of_pizza_sizes_Some)

lemma add_ingredient_size: "size_field (snd (add_ingredient i ord)) = size_field ord"
  by (simp add: add_ingredient_def Let_def split: option.splits)

lemma remove_ingredient_size: "size_field (snd (remove_ingredient i ord)) = size_field ord"
  by (simp add: remove_ingredient_def Let_def split: option.splits)

lemma show_current_order_same: "snd (show_current_order ord) = ord"
  by (simp add: show_current_order_def Let_def split: option.splits)

lemma confirm_order_size: "size_field (snd (confirm_order ord)) = size_field ord"
  by (simp add: confirm_order_def Let_def split: option.splits)

lemma size_valid_cong: "size_field ord' = size_field ord \<Longrightarrow> size_valid ord' = size_valid ord"
  by (simp add: size_valid_def)

lemma execute_function_valid:
  "size_valid ord \<Longrightarrow> size_valid (snd (execute_function f p ord))"
  by (simp add: execute_function_def ok_def set_pizza_size_valid create_pizza_with_size_valid
      show_current_order_same show_available_ingredients_def
      size_valid_cong [OF add_ingredient_size] size_valid_cong [OF remove_ingredient_size]
      size_valid_cong [OF confirm_order_size])

text \<open>Every operation keeps the ingredients inside the catalog, and every operation but
  \<open>create_pizza_with_size\<close> keeps them free of duplicates.\<close>

lemma map_filter_first_match_catalog:
  "x \<in> set (List.map_filter (\<lambda>(name, category). first_match n category) cats)
   \<Longrightarrow> x \<in> set (concat (map snd cats))"
  by (induction cats) (auto simp: List.map_filter_simps split: option.splits dest: first_match_mem)

lemma create_pizza_with_size_catalog:
  "from_catalog ord \<Longrightarrow> from_catalog (snd (create_pizza_with_size s m ord))"
  by (auto simp: create_pizza_with_size_def from_catalog_def catalog_def Let_def list_all_iff
      split: option.splits dest: map_filter_first_match_catalog)

lemma add_ingredient_catalog:
  "from_catalog ord \<Longrightarrow> from_catalog (snd (add_ingredient i ord))"
  by (auto simp: add_ingredient_def from_catalog_def catalog_def Let_def list_all_iff
      split: option.splits dest: first_match_mem)

lemma add_ingredient_distinct:
  assumes "distinct (ingredients ord)"
  shows "distinct (ingredients (snd (add_ingredient i ord)))"
proof (cases "first_match (normalize_ingredient i) (concat (map snd available_ingredients))")
  case None
  with assms show ?thesis by (simp add: add_ingredient_def Let_def)
next
  case (Some orig)
  then have low: "lower orig = normalize_ingredient i"
    by (simp add: first_match_mem)
  show ?thesis
  proof (cases "normalize_ingredient i \<in> set (map lower (ingredients ord))")
    case True
    with assms show ?thesis by (simp add: add_ingredient_def Let_def)
  next
    case False
    with low have "orig \<notin> set (ingredients ord)" by force
    with assms Some show ?thesis by (simp add: add_ingredient_def Let_def)
  qed
qed

lemma remove_ingredient_catalog:
  "from_catalog ord \<Longrightarrow> from_catalog (snd (remove_ingredient i ord))"
  by (auto simp: remove_ingredient_def from_catalog_def Let_def list_all_iff
      split: option.splits dest: pop_first_set)

lemma remove_ingredient_distinct:
  "distinct (ingredients ord) \<Longrightarrow> distinct (ingredients (snd (remove_ingredient i ord)))"
  by (auto simp: remove_ingredient_def Let_def split: option.splits dest: pop_first_set)

lemma set_pizza_size_ingredients: "ingredients (snd (set_pizza_size s ord)) = ingredients ord"
  by (simp add: set_pizza_size_def Let_def split: option.splits)

lemma confirm_order_ingredients: "ingredients (snd (confirm_order ord)) = ingredients ord"
  by (simp add: confirm_order_def Let_def split: option.splits)

lemma execute_function_catalog:
  "from_catalog ord \<Longrightarrow> from_catalog (snd (execute_function f p ord))"
  by (simp add: execute_function_def ok_def create_pizza_with_size_catalog add_ingredient_catalog
      remove_ingredient_catalog show_current_order_same show_available_ingredients_def)
     (simp add: from_catalog_def set_pizza_size_ingredients confirm_order_ingredients)

lemma execute_function_distinct:
  "distinct (ingredients ord) \<Longrightarrow> f \<noteq> ''create_pizza_with_size''
   \<Longrightarrow> distinct (ingredients (snd (execute_function f p ord)))"
  by (simp add: execute_function_def ok_def add_ingredient_distinct
      remove_ingredient_distinct show_current_order_same show_available_ingredients_def
      set_pizza_size_ingredients confirm_order_ingredients)


text \<open>
  C2. On an order whose size is unset or one of the four tiers, \<open>confirm_order\<close> succeeds
  exactly when the size is set and the ingredient list is not empty. It then sets
  \<open>confirmed\<close>, changes nothing else, and reports as total the price of the size, whatever
  the ingredients are. With no size it asks for a size, with a size and no ingredients it
  asks for toppings, and in both cases the order is returned as it was.
\<close>

theorem confirm_order_spec:
  assumes "size_valid ord"
  shows "(is_confirmation (fst (confirm_order ord)) \<longleftrightarrow>
            size_field ord \<noteq> None \<and> ingredients ord \<noteq> [])
       \<and> (size_field ord \<noteq> None \<and> ingredients ord \<noteq> [] \<longrightarrow>
            confirm_order ord =
              (Inr (OrderConfirmed (the (size_field ord)) (ingredients ord)
                      (price_of (the (size_field ord)))),
               ord\<lparr>confirmed := True\<rparr>))
       \<and> (size_field ord = None \<longrightarrow> confirm_order ord = (Inr SelectSizeFirst, ord))
       \<and> (size_field ord \<noteq> None \<and> ingredients ord = [] \<longrightarrow>
            confirm_order ord = (Inr AddToppingsFirst, ord))"
proof (cases "size_field ord")
  case None
  then show ?thesis
    by (simp add: confirm_order_def size_unset_def is_confirmation_def)
next
  case (Some s)
  with assms have mem: "s \<in> set (map fst pizza_sizes)"
    by (simp add: size_valid_def)
  then obtain p d where pd: "map_of pizza_sizes s = Some (p, d)"
    using map_of_pizza_sizes_mem by blast
  from mem have ne: "s \<noteq> []" by (rule tier_not_empty)
  show ?thesis
  proof (cases "ingredients ord = []")
    case True
    with Some ne show ?thesis
      by (simp add: confirm_order_def size_unset_def is_confirmation_def)
  next
    case False
    with Some ne pd show ?thesis
      by (simp add: confirm_order_def size_unset_def is_confirmation_def price_of_def)
  qed
qed


theorem confirm_order_spec_witness:
  "size_valid large_olives
   \<and> confirm_order large_olives =
       (Inr (OrderConfirmed ''large'' [''olives''] 1899), large_olives\<lparr>confirmed := True\<rparr>)
   \<and> confirm_order current_order = (Inr SelectSizeFirst, current_order)
   \<and> confirm_order (current_order\<lparr>size_field := Some ''small''\<rparr>) =
       (Inr AddToppingsFirst, current_order\<lparr>size_field := Some ''small''\<rparr>)"
proof -
  have v1: "size_valid large_olives"
    by (simp add: size_valid_def large_olives_def pizza_sizes_def)
  have v2: "size_valid current_order"
    by (simp add: size_valid_def current_order_def)
  have v3: "size_valid (current_order\<lparr>size_field := Some ''small''\<rparr>)"
    by (simp add: size_valid_def current_order_def pizza_sizes_def)
  have p: "price_of ''large'' = 1899"
    by (simp add: price_of_def pizza_sizes_def)
  show ?thesis
    using v1 confirm_order_spec [OF v1] confirm_order_spec [OF v2] confirm_order_spec [OF v3] p
    by (simp add: large_olives_def current_order_def)
qed

text \<open>
  C3. The invariant that the ingredient list has no duplicates is broken by
  \<open>create_pizza_with_size\<close>: on an order that already holds pepperoni, creating a large
  pizza with main ingredient pepperoni leaves pepperoni on the list twice.
\<close>

theorem create_pizza_with_size_duplicates:
  "ingredients (snd (add_ingredient ''pepperoni'' current_order)) = [''pepperoni'']
   \<and> ingredients
        (snd (execute_function ''create_pizza_with_size''
                 [(''size'', ''large''), (''main_ingredient'', ''pepperoni'')]
                 (snd (add_ingredient ''pepperoni'' current_order))))
       = [''pepperoni'', ''pepperoni'']"
  by code_simp

text \<open>What each operation does to the fields it does not own.\<close>

lemma create_pizza_with_size_frame:
  "confirmed (snd (create_pizza_with_size s m ord)) = confirmed ord
   \<and> total_price (snd (create_pizza_with_size s m ord)) = total_price ord"
  by (simp add: create_pizza_with_size_def Let_def split: option.splits)

lemma add_ingredient_frame:
  "confirmed (snd (add_ingredient i ord)) = confirmed ord
   \<and> total_price (snd (add_ingredient i ord)) = total_price ord"
  by (simp add: add_ingredient_def Let_def split: option.splits)

lemma set_pizza_size_frame:
  "confirmed (snd (set_pizza_size s ord)) = confirmed ord
   \<and> total_price (snd (set_pizza_size s ord)) = total_price ord"
  by (simp add: set_pizza_size_def Let_def split: option.splits)

lemma remove_ingredient_frame:
  "confirmed (snd (remove_ingredient i ord)) = confirmed ord
   \<and> total_price (snd (remove_ingredient i ord)) = total_price ord"
  by (simp add: remove_ingredient_def Let_def split: option.splits)

lemma confirm_order_frame:
  "total_price (snd (confirm_order ord)) = total_price ord
   \<and> (confirmed ord \<longrightarrow> confirmed (snd (confirm_order ord)))
   \<and> (confirmed (snd (confirm_order ord)) \<and> \<not> confirmed ord
        \<longrightarrow> size_field ord \<noteq> None \<and> ingredients ord \<noteq> [])
   \<and> (\<not> size_unset ord \<and> ingredients ord \<noteq> [] \<longrightarrow> confirmed (snd (confirm_order ord)))"
  by (auto simp: confirm_order_def size_unset_def Let_def split: option.splits)

lemma execute_function_total_price:
  "total_price (snd (execute_function f p ord)) = total_price ord"
  by (simp add: execute_function_def ok_def create_pizza_with_size_frame add_ingredient_frame
      set_pizza_size_frame remove_ingredient_frame confirm_order_frame
      show_current_order_same show_available_ingredients_def)

lemma execute_function_confirmed:
  "confirmed ord \<Longrightarrow> confirmed (snd (execute_function f p ord))"
  by (simp add: execute_function_def ok_def create_pizza_with_size_frame add_ingredient_frame
      set_pizza_size_frame remove_ingredient_frame confirm_order_frame
      show_current_order_same show_available_ingredients_def)

lemma execute_function_confirms:
  "\<not> confirmed ord \<Longrightarrow> confirmed (snd (execute_function f p ord))
   \<Longrightarrow> f = ''confirm_order'' \<and> size_field ord \<noteq> None \<and> ingredients ord \<noteq> []"
  using confirm_order_frame [of ord]
  by (simp add: execute_function_def ok_def create_pizza_with_size_frame add_ingredient_frame
      set_pizza_size_frame remove_ingredient_frame
      show_current_order_same show_available_ingredients_def split: if_splits)

lemma run_confirmed: "confirmed ord \<Longrightarrow> confirmed (run cmds ord)"
  by (induction cmds arbitrary: ord) (auto simp: execute_function_confirmed)

lemma run_total_price: "total_price (run cmds ord) = total_price ord"
  by (induction cmds arbitrary: ord) (auto simp: execute_function_total_price)

text \<open>The reply of an operation does not read the \<open>total_price\<close> field.\<close>

lemma size_unset_total_price: "size_unset (ord\<lparr>total_price := x\<rparr>) = size_unset ord"
  by (simp add: size_unset_def)

lemma execute_function_reply_total_price:
  "fst (execute_function f p (ord\<lparr>total_price := x\<rparr>)) = fst (execute_function f p ord)"
  by (simp add: execute_function_def ok_def create_pizza_with_size_def add_ingredient_def
      set_pizza_size_def remove_ingredient_def show_current_order_def confirm_order_def
      show_available_ingredients_def size_unset_total_price Let_def
      split: option.splits)

text \<open>
  C7. \<open>set_pizza_size\<close> compares the lower-cased, trimmed argument with the four tiers.
  When it is none of them, the order is returned as it was and the reply is the unknown-size
  reply listing the tiers. When it is a tier, the order's size becomes that tier and nothing
  else in the record changes; the reply carries the tier's price, and \<open>show_current_order\<close>
  on the new order shows that price with the ingredients as they were. The ingredient list
  is the same after one call and after a second call with any other argument.
\<close>

theorem set_pizza_size_keeps_ingredients:
  "(strip (lower s) \<notin> set (map fst pizza_sizes) \<longrightarrow>
      set_pizza_size s ord = (UnknownSize (map fst pizza_sizes), ord))
   \<and> (strip (lower s) \<in> set (map fst pizza_sizes) \<longrightarrow>
        set_pizza_size s ord =
          (SizeSet (strip (lower s)) (description_of (strip (lower s))) (price_of (strip (lower s))),
           ord\<lparr>size_field := Some (strip (lower s))\<rparr>)
        \<and> fst (show_current_order (snd (set_pizza_size s ord))) =
            Inr (OrderSummary (strip (lower s)) (description_of (strip (lower s)))
                   (price_of (strip (lower s))) (ingredients ord) (price_of (strip (lower s)))))
   \<and> ingredients (snd (set_pizza_size s ord)) = ingredients ord
   \<and> ingredients (snd (set_pizza_size s' (snd (set_pizza_size s ord)))) = ingredients ord"
proof -
  let ?t = "strip (lower s)"
  have a: "?t \<notin> set (map fst pizza_sizes) \<longrightarrow>
      set_pizza_size s ord = (UnknownSize (map fst pizza_sizes), ord)"
    by (simp add: set_pizza_size_def Let_def map_of_pizza_sizes_None)
  have b: "set_pizza_size s ord =
          (SizeSet ?t (description_of ?t) (price_of ?t), ord\<lparr>size_field := Some ?t\<rparr>)
        \<and> fst (show_current_order (snd (set_pizza_size s ord))) =
            Inr (OrderSummary ?t (description_of ?t) (price_of ?t) (ingredients ord) (price_of ?t))"
    if mem: "?t \<in> set (map fst pizza_sizes)"
  proof -
    from mem obtain p d where pd: "map_of pizza_sizes ?t = Some (p, d)"
      using map_of_pizza_sizes_mem by blast
    from mem have ne: "?t \<noteq> []" by (rule tier_not_empty)
    from pd ne show ?thesis
      by (simp add: set_pizza_size_def show_current_order_def size_unset_def Let_def
          price_of_def description_of_def)
  qed
  have c: "ingredients (snd (set_pizza_size s ord)) = ingredients ord"
    by (rule set_pizza_size_ingredients)
  have d: "ingredients (snd (set_pizza_size s' (snd (set_pizza_size s ord)))) = ingredients ord"
    by (simp add: set_pizza_size_ingredients)
  from a b c d show ?thesis by blast
qed

theorem set_pizza_size_keeps_ingredients_witness:
  "strip (lower ''  Large '') \<in> set (map fst pizza_sizes)
   \<and> set_pizza_size ''  Large '' (current_order\<lparr>size_field := Some ''small'', ingredients := [''olives'', ''ham'']\<rparr>) =
       (SizeSet ''large'' ''14 inch'' 1899,
        current_order\<lparr>size_field := Some ''large'', ingredients := [''olives'', ''ham'']\<rparr>)
   \<and> strip (lower ''huge'') \<notin> set (map fst pizza_sizes)
   \<and> set_pizza_size ''huge'' large_olives =
       (UnknownSize [''small'', ''medium'', ''large'', ''extra large''], large_olives)"
proof -
  have e: "strip (lower ''  Large '') = ''large''" by code_simp
  have m: "''large'' \<in> set (map fst pizza_sizes)" by code_simp
  have pd: "price_of ''large'' = 1899" "description_of ''large'' = ''14 inch''" by code_simp+
  have h: "strip (lower ''huge'') \<notin> set (map fst pizza_sizes)" by code_simp
  have k: "map fst pizza_sizes = [''small'', ''medium'', ''large'', ''extra large'']" by code_simp
  show ?thesis
    using set_pizza_size_keeps_ingredients
            [of "''  Large ''" "current_order\<lparr>size_field := Some ''small'', ingredients := [''olives'', ''ham'']\<rparr>"]
          set_pizza_size_keeps_ingredients [of "''huge''" large_olives]
          e m pd h k
    by (simp add: current_order_def)
qed

text \<open>
  C8. An operation of the dispatcher run on a confirmed order leaves it confirmed, and so
  does any sequence of them. When an operation turns \<open>confirmed\<close> from false to true, the
  operation is \<open>confirm_order\<close>, the size was set and the ingredient list was not empty.
\<close>

theorem confirmed_only_by_confirm_order:
  "(confirmed ord \<longrightarrow> confirmed (snd (execute_function f p ord)))
   \<and> (\<not> confirmed ord \<and> confirmed (snd (execute_function f p ord)) \<longrightarrow>
        f = ''confirm_order'' \<and> size_field ord \<noteq> None \<and> ingredients ord \<noteq> [])
   \<and> (confirmed ord \<longrightarrow> confirmed (run cmds ord))"
  using execute_function_confirmed [of ord f p] execute_function_confirms [of ord f p]
    run_confirmed [of ord cmds]
  by blast

theorem confirmed_only_by_confirm_order_witness:
  "\<not> confirmed large_olives
   \<and> confirmed (snd (execute_function ''confirm_order'' [] large_olives))
   \<and> confirmed confirmed_olives
   \<and> confirmed (snd (execute_function ''remove_ingredient'' [(''ingredient'', ''olives'')] confirmed_olives))
   \<and> confirmed (run [(''remove_ingredient'', [(''ingredient'', ''olives'')]),
                     (''set_pizza_size'', [(''size'', ''small'')]),
                     (''confirm_order'', [])] confirmed_olives)
   \<and> size_field large_olives \<noteq> None \<and> ingredients large_olives \<noteq> []"
proof -
  have a: "\<not> confirmed large_olives" by (simp add: large_olives_def)
  have b: "confirmed (snd (execute_function ''confirm_order'' [] large_olives))" by code_simp
  have c: "confirmed confirmed_olives" by (simp add: confirmed_olives_def)
  show ?thesis
    using a b c
      confirmed_only_by_confirm_order [of large_olives "''confirm_order''" "[]" "[]"]
      confirmed_only_by_confirm_order [of confirmed_olives "''remove_ingredient''"
         "[(''ingredient'', ''olives'')]"
         "[(''remove_ingredient'', [(''ingredient'', ''olives'')]),
           (''set_pizza_size'', [(''size'', ''small'')]),
           (''confirm_order'', [])]"]
    by simp
qed

text \<open>
  C10. \<open>total_price\<close> starts at 0 and no operation writes it: each operation, the dispatcher
  and every sequence of commands from the initial order leave it as it was, also a
  successful \<open>confirm_order\<close>. No reply of the dispatcher reads the field: the total that
  \<open>confirm_order\<close> reports is the price of the size in \<open>pizza_sizes\<close>.
\<close>

theorem total_price_never_updated:
  "total_price current_order = 0
   \<and> total_price (snd (create_pizza_with_size s m ord)) = total_price ord
   \<and> total_price (snd (set_pizza_size s ord)) = total_price ord
   \<and> total_price (snd (add_ingredient i ord)) = total_price ord
   \<and> total_price (snd (remove_ingredient i ord)) = total_price ord
   \<and> total_price (snd (confirm_order ord)) = total_price ord
   \<and> total_price (snd (execute_function f p ord)) = total_price ord
   \<and> total_price (run cmds current_order) = 0
   \<and> fst (execute_function f p (ord\<lparr>total_price := x\<rparr>)) = fst (execute_function f p ord)
   \<and> confirm_order large_olives =
       (Inr (OrderConfirmed ''large'' [''olives''] (price_of ''large'')),
        large_olives\<lparr>confirmed := True\<rparr>)
   \<and> total_price (large_olives\<lparr>confirmed := True\<rparr>) = 0"
proof -
  have "confirm_order large_olives =
       (Inr (OrderConfirmed ''large'' [''olives''] (price_of ''large'')),
        large_olives\<lparr>confirmed := True\<rparr>)"
    by code_simp
  then show ?thesis
    by (simp add: create_pizza_with_size_frame set_pizza_size_frame add_ingredient_frame
      remove_ingredient_frame confirm_order_frame execute_function_total_price run_total_price
      execute_function_reply_total_price)
       (simp add: current_order_def large_olives_def)
qed

lemma strip_Nil_iff: "strip s = [] \<longleftrightarrow> list_all isspace s"
proof
  assume "strip s = []"
  then have all: "\<forall>x\<in>set (dropWhile isspace s). isspace x"
    by (simp add: strip_def dropWhile_eq_Nil_conv)
  have "dropWhile isspace s = []"
  proof (rule ccontr)
    assume ne: "dropWhile isspace s \<noteq> []"
    then have "\<not> isspace (hd (dropWhile isspace s))" by (rule hd_dropWhile)
    moreover from ne have "hd (dropWhile isspace s) \<in> set (dropWhile isspace s)" by simp
    ultimately show False using all by blast
  qed
  then have "\<forall>x\<in>set s. isspace x" by simp
  then show "list_all isspace s" by (simp add: list_all_iff)
next
  assume "list_all isspace s"
  then have "\<forall>x\<in>set s. isspace x" by (simp add: list_all_iff)
  then have "dropWhile isspace s = []" by simp
  then have "rev (dropWhile isspace (rev (dropWhile isspace s))) = []"
    by (auto dest: set_dropWhileD)
  then show "strip s = []" unfolding strip_def .
qed

lemma lower_char_changes: "lower_char c \<noteq> c \<Longrightarrow> c \<in> set ascii_uppercase"
proof -
  assume ne: "lower_char c \<noteq> c"
  then obtain d where "map_of (zip ascii_uppercase ascii_lowercase) c = Some d"
    by (auto simp: lower_char_def split: option.splits)
  then have "(c, d) \<in> set (zip ascii_uppercase ascii_lowercase)"
    by (rule map_of_SomeD)
  then show ?thesis by (rule set_zip_leftD)
qed

lemma uppercase_not_space: "c \<in> set ascii_uppercase \<Longrightarrow> \<not> isspace c"
  unfolding ascii_uppercase_def isspace_def whitespace_def by auto

lemma lower_char_space: "isspace c \<Longrightarrow> lower_char c = c"
  using lower_char_changes uppercase_not_space by blast

lemma lower_blank: "list_all isspace s \<Longrightarrow> lower s = s"
  by (induction s) (simp_all add: lower_def lower_char_space)

lemma no_done_phrase_in_blank:
  "\<not> list_ex (\<lambda>phrase. phrase = []) done_phrases"
  by (simp add: done_phrases_def)

text \<open>
  C6. The chat of the book assistant answers an input that is empty or only white space
  with its request for input: no retrieval, no call of the text generator, no random
  draw, and the assistant (catalog and history) is returned as it was. The chat of the
  pizza assistant has no such test: on such an input no completion phrase matches, the
  collaborator is called, and the turn is what its answer makes it. Its console loop is
  what skips an empty line, without calling \<open>chat\<close>.
\<close>

theorem empty_input_short_circuit:
  "(strip user_input = [] \<longrightarrow>
      book_chat env user_input self = ((Inr AskForInput, self), []))
   \<and> (strip user_input = [] \<longrightarrow>
      pizza_chat generate_content user_input ord =
        (case generate_content ord user_input of
           Raised e \<Rightarrow> ((ErrorReply (CollaboratorError e), ord), [ModelCall])
         | Parts parts \<Rightarrow>
             (case first_part parts ord of
                Some (r, effs) \<Rightarrow> (r, ModelCall # effs)
              | None \<Rightarrow> ((HappyToHelp, ord), [ModelCall]))))
   \<and> (strip line = [] \<longrightarrow> main_turn generate_content line ord = Skipped)"
proof -
  have a: "book_chat env user_input self = ((Inr AskForInput, self), [])" if "strip user_input = []"
    using that by (simp add: book_chat_def)
  have b: "pizza_chat generate_content user_input ord =
        (case generate_content ord user_input of
           Raised e \<Rightarrow> ((ErrorReply (CollaboratorError e), ord), [ModelCall])
         | Parts parts \<Rightarrow>
             (case first_part parts ord of
                Some (r, effs) \<Rightarrow> (r, ModelCall # effs)
              | None \<Rightarrow> ((HappyToHelp, ord), [ModelCall])))" if s: "strip user_input = []"
  proof -
    from s have "list_all isspace user_input" by (simp add: strip_Nil_iff)
    then have "lower user_input = user_input" by (rule lower_blank)
    with s have "strip (lower user_input) = []" by simp
    then show ?thesis
      by (simp add: pizza_chat_def no_done_phrase_in_blank)
  qed
  have c: "main_turn generate_content line ord = Skipped" if "strip line = []"
    using that by (simp add: main_turn_def Let_def lower_def)
  show ?thesis
    by (intro conjI impI; (erule a | erule b | erule c))
qed

theorem empty_input_short_circuit_witness:
  "strip '' '' = []
   \<and> book_chat quiet_env '' '' two_book_bot = ((Inr AskForInput, two_book_bot), [])
   \<and> pizza_chat adds_ham '' '' current_order =
       ((Added ''ham'', current_order\<lparr>ingredients := [''ham'']\<rparr>),
        [ModelCall, Dispatch ''add_ingredient''])
   \<and> main_turn adds_ham '' '' current_order = Skipped"
proof -
  have s: "strip '' '' = []" by code_simp
  have p: "pizza_chat adds_ham '' '' current_order =
       ((Added ''ham'', current_order\<lparr>ingredients := [''ham'']\<rparr>),
        [ModelCall, Dispatch ''add_ingredient''])" by code_simp
  note t = empty_input_short_circuit
             [of "'' ''" quiet_env two_book_bot adds_ham current_order "'' ''"]
  from t s have b: "book_chat quiet_env '' '' two_book_bot = ((Inr AskForInput, two_book_bot), [])"
    by blast
  from t s have m: "main_turn adds_ham '' '' current_order = Skipped"
    by blast
  from s b p m show ?thesis by blast
qed

text \<open>
  The pizza assistant on the empty input and on blanks: the collaborator is called, and when
  it answers with a call of \<open>add_ingredient\<close> the order is changed.
\<close>

theorem pizza_chat_empty_counterexample:
  "pizza_chat adds_ham '''' current_order =
     ((Added ''ham'', current_order\<lparr>ingredients := [''ham'']\<rparr>),
      [ModelCall, Dispatch ''add_ingredient''])
   \<and> pizza_chat adds_ham ''   '' current_order =
     ((Added ''ham'', current_order\<lparr>ingredients := [''ham'']\<rparr>),
      [ModelCall, Dispatch ''add_ingredient''])"
  by code_simp

section \<open>Properties of the book assistant\<close>

lemma detect_intent_cases:
  "detect_intent user_input =
     (case first_pattern author_patterns (lower user_input) of
        Some g \<Rightarrow> (author_search, strip g)
      | None \<Rightarrow>
          (case first_pattern title_patterns (lower user_input) of
             Some g \<Rightarrow> (title_search, strip g)
           | None \<Rightarrow> (similarity_search, user_input)))"
  by (simp add: detect_intent_def Let_def)

text \<open>\<open>first_pattern\<close> gives the group of the earliest pattern of the list that matches.\<close>

lemma first_pattern_is_first:
  "first_pattern ps s = Some g \<longleftrightarrow>
     (\<exists>i<length ps. re_search (ps ! i) s = Some g \<and> (\<forall>j<i. re_search (ps ! j) s = None))"
proof (induction ps)
  case Nil
  then show ?case by simp
next
  case (Cons p ps)
  show ?case
  proof (cases "re_search p s")
    case None
    have "(\<exists>i<length (p # ps). re_search ((p # ps) ! i) s = Some g
             \<and> (\<forall>j<i. re_search ((p # ps) ! j) s = None))
          \<longleftrightarrow> (\<exists>i<length ps. re_search (ps ! i) s = Some g
             \<and> (\<forall>j<i. re_search (ps ! j) s = None))"
      (is "?L \<longleftrightarrow> ?R")
    proof
      assume ?L
      then obtain i where i: "i < length (p # ps)" "re_search ((p # ps) ! i) s = Some g"
        "\<forall>j<i. re_search ((p # ps) ! j) s = None" by blast
      with None obtain k where k: "i = Suc k" by (cases i) auto
      with i have "k < length ps" "re_search (ps ! k) s = Some g" by auto
      moreover have "\<forall>j<k. re_search (ps ! j) s = None"
      proof (intro allI impI)
        fix j assume "j < k"
        then have "Suc j < i" using k by simp
        with i(3) have "re_search ((p # ps) ! Suc j) s = None" by blast
        then show "re_search (ps ! j) s = None" by simp
      qed
      ultimately show ?R by blast
    next
      assume ?R
      then obtain k where k: "k < length ps" "re_search (ps ! k) s = Some g"
        "\<forall>j<k. re_search (ps ! j) s = None" by blast
      have "\<forall>j<Suc k. re_search ((p # ps) ! j) s = None"
      proof (intro allI impI)
        fix j assume "j < Suc k"
        then show "re_search ((p # ps) ! j) s = None"
          using None k(3) by (cases j) auto
      qed
      with k(1,2) have "Suc k < length (p # ps) \<and> re_search ((p # ps) ! Suc k) s = Some g
        \<and> (\<forall>j<Suc k. re_search ((p # ps) ! j) s = None)" by simp
      then show ?L by blast
    qed
    with None Cons.IH show ?thesis by simp
  next
    case (Some h)
    have "(\<exists>i<length (p # ps). re_search ((p # ps) ! i) s = Some g
             \<and> (\<forall>j<i. re_search ((p # ps) ! j) s = None)) \<longleftrightarrow> h = g"
      (is "?L \<longleftrightarrow> _")
    proof
      assume ?L
      then obtain i where i: "i < length (p # ps)" "re_search ((p # ps) ! i) s = Some g"
        "\<forall>j<i. re_search ((p # ps) ! j) s = None" by blast
      have "i = 0"
      proof (rule ccontr)
        assume "i \<noteq> 0"
        then have "0 < i" by simp
        with i(3) have "re_search ((p # ps) ! 0) s = None" by blast
        with Some show False by simp
      qed
      with i(2) Some show "h = g" by simp
    next
      assume "h = g"
      with Some have "0 < length (p # ps) \<and> re_search ((p # ps) ! 0) s = Some g
         \<and> (\<forall>j<0. re_search ((p # ps) ! j) s = None)" by simp
      then show ?L by blast
    qed
    with Some show ?thesis by simp
  qed
qed

text \<open>
  C5. \<open>detect_intent\<close> lower-cases the input and tries the author patterns in their order:
  when one matches, the intent is \<open>author_search\<close> and the query is the group of the
  earliest matching pattern, trimmed. When none does, the title patterns are tried the same
  way for \<open>title_search\<close>. When neither list matches, the intent is \<open>similarity_search\<close> and
  the query is the input as it was given. The intent does not depend on the case of the
  input. The three inputs of the specification classify as it says. As a function of its
  input alone, \<open>detect_intent\<close> gives the same classification for the same input.
\<close>

theorem detect_intent_priority:
  "(first_pattern author_patterns (lower user_input) = Some g \<longrightarrow>
      detect_intent user_input = (author_search, strip g))
   \<and> (first_pattern author_patterns (lower user_input) = None
        \<and> first_pattern title_patterns (lower user_input) = Some g \<longrightarrow>
      detect_intent user_input = (title_search, strip g))
   \<and> (first_pattern author_patterns (lower user_input) = None
        \<and> first_pattern title_patterns (lower user_input) = None \<longrightarrow>
      detect_intent user_input = (similarity_search, user_input))
   \<and> (first_pattern ps s = Some g \<longleftrightarrow>
        (\<exists>i<length ps. re_search (ps ! i) s = Some g \<and> (\<forall>j<i. re_search (ps ! j) s = None)))
   \<and> fst (detect_intent (lower user_input)) = fst (detect_intent user_input)
   \<and> detect_intent ''books by Jane Austen'' = (author_search, ''jane austen'')
   \<and> detect_intent ''book called Dune'' = (title_search, ''dune'')
   \<and> detect_intent ''something about dragons'' = (similarity_search, ''something about dragons'')"
proof -
  have a: "first_pattern author_patterns (lower user_input) = Some g \<longrightarrow>
      detect_intent user_input = (author_search, strip g)"
    by (simp add: detect_intent_cases)
  have b: "first_pattern author_patterns (lower user_input) = None
        \<and> first_pattern title_patterns (lower user_input) = Some g \<longrightarrow>
      detect_intent user_input = (title_search, strip g)"
    by (simp add: detect_intent_cases)
  have c: "first_pattern author_patterns (lower user_input) = None
        \<and> first_pattern title_patterns (lower user_input) = None \<longrightarrow>
      detect_intent user_input = (similarity_search, user_input)"
    by (simp add: detect_intent_cases)
  have d: "fst (detect_intent (lower user_input)) = fst (detect_intent user_input)"
    by (simp add: detect_intent_cases lower_idem split: option.splits)
  have e1: "detect_intent ''books by Jane Austen'' = (author_search, ''jane austen'')"
    by code_simp
  have e2: "detect_intent ''book called Dune'' = (title_search, ''dune'')"
    by code_simp
  have e3: "detect_intent ''something about dragons'' =
      (similarity_search, ''something about dragons'')"
    by code_simp
  show ?thesis
    by (intro conjI) (rule a b c d e1 e2 e3 first_pattern_is_first)+
qed

theorem detect_intent_priority_witness:
  "first_pattern author_patterns (lower ''Find BOOKS BY Tolkien'') = Some ''tolkien''
   \<and> first_pattern title_patterns (lower ''Find BOOKS BY Tolkien'') = Some ''books by tolkien''
   \<and> detect_intent ''Find BOOKS BY Tolkien'' = (author_search, ''tolkien'')
   \<and> first_pattern author_patterns (lower ''Looking for  Dune '') = None
   \<and> first_pattern title_patterns (lower ''Looking for  Dune '') = Some '' dune ''
   \<and> detect_intent ''Looking for  Dune '' = (title_search, ''dune'')
   \<and> first_pattern author_patterns (lower ''Dragons'') = None
   \<and> first_pattern title_patterns (lower ''Dragons'') = None
   \<and> detect_intent ''Dragons'' = (similarity_search, ''Dragons'')"
proof -
  have a1: "first_pattern author_patterns (lower ''Find BOOKS BY Tolkien'') = Some ''tolkien''"
    by code_simp
  have a2: "first_pattern title_patterns (lower ''Find BOOKS BY Tolkien'') = Some ''books by tolkien''"
    by code_simp
  have a3: "strip ''tolkien'' = ''tolkien''" by code_simp
  have b1: "first_pattern author_patterns (lower ''Looking for  Dune '') = None" by code_simp
  have b2: "first_pattern title_patterns (lower ''Looking for  Dune '') = Some '' dune ''"
    by code_simp
  have b3: "strip '' dune '' = ''dune''" by code_simp
  have c1: "first_pattern author_patterns (lower ''Dragons'') = None" by code_simp
  have c2: "first_pattern title_patterns (lower ''Dragons'') = None" by code_simp
  note t1 = detect_intent_priority [of "''Find BOOKS BY Tolkien''" "''tolkien''" "[]" "[]"]
  note t2 = detect_intent_priority [of "''Looking for  Dune ''" "'' dune ''" "[]" "[]"]
  note t3 = detect_intent_priority [of "''Dragons''" "[]" "[]" "[]"]
  from t1 a1 a3 have r1: "detect_intent ''Find BOOKS BY Tolkien'' = (author_search, ''tolkien'')"
    by metis
  from t2 b1 b2 b3 have r2: "detect_intent ''Looking for  Dune '' = (title_search, ''dune'')"
    by metis
  from t3 c1 c2 have r3: "detect_intent ''Dragons'' = (similarity_search, ''Dragons'')"
    by metis
  show ?thesis
    by (intro conjI) (rule a1 a2 b1 b2 c1 c2 r1 r2 r3)+
qed

text \<open>
  The query is not the group itself: on \<open>books by  x\<close>, written with two blanks, the group
  of the first author pattern starts with a blank and the query does not.
\<close>

theorem detect_intent_query_counterexample:
  "first_pattern author_patterns (lower ''books by  x'') = Some '' x''
   \<and> detect_intent ''books by  x'' = (author_search, ''x'')
   \<and> ''x'' \<noteq> '' x''"
  by code_simp

text \<open>Reading a column after an assignment and after \<open>dropna\<close>.\<close>

lemma map_of_replace:
  "map_of (map (\<lambda>(n, old). if n = c then (n, s) else (n, old)) df) k =
     (if k = c then (if c \<in> set (map fst df) then Some s else None) else map_of df k)"
  by (induction df) (auto, force)

lemma df_col_assign_same: "df_col (df_assign df c s) c = s"
proof (cases "c \<in> set (map fst df)")
  case True
  then show ?thesis by (simp add: df_col_def df_assign_def map_of_replace)
next
  case False
  then have "map_of df c = None" by (simp add: map_of_eq_None_iff)
  with False show ?thesis by (simp add: df_col_def df_assign_def map_add_def)
qed

lemma df_col_assign_other: "k \<noteq> c \<Longrightarrow> df_col (df_assign df c s) k = df_col df k"
  by (simp add: df_col_def df_assign_def map_of_replace map_add_def split: option.splits)

lemma map_of_map_values:
  "map_of (map (\<lambda>(c, s). (c, f s)) df) k = map_option f (map_of df k)"
  by (induction df) auto

lemma df_col_dropna:
  "k \<in> set (map fst df) \<Longrightarrow>
     df_col (dropna cols df) k = map (\<lambda>i. df_col df k ! i) (complete_rows cols df)"
proof -
  assume "k \<in> set (map fst df)"
  then obtain s where s: "map_of df k = Some s"
    by (metis map_of_eq_None_iff not_None_eq set_map)
  have "map_of (map (\<lambda>(c, s). (c, map (\<lambda>i. s ! i) (complete_rows cols df))) df) k =
        map_option (\<lambda>s. map (\<lambda>i. s ! i) (complete_rows cols df)) (map_of df k)"
    by (rule map_of_map_values)
  with s show ?thesis by (simp add: df_col_def dropna_def)
qed

text \<open>In a well-formed frame, the kept cells of a required column that is not numeric are
  strings.\<close>

lemma wf_frame_column:
  assumes "wf_frame df" and "k \<in> set (map fst df)"
  shows "length (df_col df k) = df_len df"
    and "list_all (\<lambda>x. x \<noteq> Num) (df_col df k) \<or> list_all (\<lambda>x. \<not> is_text x) (df_col df k)"
proof -
  from assms(2) obtain s where s: "map_of df k = Some s"
    by (metis map_of_eq_None_iff not_None_eq set_map)
  then have mem: "(k, s) \<in> set df" by (rule map_of_SomeD)
  from s have col: "df_col df k = s" by (simp add: df_col_def)
  from assms(1) mem show "length (df_col df k) = df_len df"
    unfolding col by (auto simp: wf_frame_def list_all_iff)
  from assms(1) mem
  show "list_all (\<lambda>x. x \<noteq> Num) (df_col df k) \<or> list_all (\<lambda>x. \<not> is_text x) (df_col df k)"
    unfolding col wf_frame_def list_all_iff by blast
qed

lemma is_text_simps: "is_text (Str u)" "\<not> is_text Num" "\<not> is_text NaN"
  by (simp_all add: is_text_def)

lemma not_text_cases: "\<not> is_text x \<Longrightarrow> x \<noteq> NaN \<Longrightarrow> x = Num"
  by (cases x) (auto simp: is_text_def)

lemma text_cases: "x \<noteq> Num \<Longrightarrow> x \<noteq> NaN \<Longrightarrow> is_text x"
  by (cases x) (auto simp: is_text_def)

lemma kept_in_range: "i \<in> set (complete_rows cols df) \<Longrightarrow> i < df_len df"
  by (simp add: complete_rows_def)

lemma kept_value:
  "i \<in> set (complete_rows cols df) \<Longrightarrow> k \<in> set cols \<Longrightarrow> df_col df k ! i \<noteq> NaN"
  by (auto simp: complete_rows_def list_all_iff)

lemma kept_text:
  assumes "wf_frame df" and "k \<in> set (map fst df)" and "k \<in> set cols"
    and "\<not> numeric (df_col df k)"
  shows "list_all is_text (map (\<lambda>i. df_col df k ! i) (complete_rows cols df))"
proof -
  have "is_text (df_col df k ! i)" if i: "i \<in> set (complete_rows cols df)" for i
  proof -
    from i have lt: "i < length (df_col df k)"
      using kept_in_range wf_frame_column(1) [OF assms(1,2)] by simp
    then have ne: "df_col df k \<noteq> []" by auto
    from lt have mem: "df_col df k ! i \<in> set (df_col df k)" by simp
    from ne assms(4) have "\<not> list_all (\<lambda>x. \<not> is_text x) (df_col df k)"
      by (simp add: numeric_def)
    with wf_frame_column(2) [OF assms(1,2)] have "list_all (\<lambda>x. x \<noteq> Num) (df_col df k)"
      by blast
    with mem have "df_col df k ! i \<noteq> Num" by (auto simp: list_all_iff)
    moreover from i assms(3) have "df_col df k ! i \<noteq> NaN" by (rule kept_value)
    ultimately show ?thesis by (rule text_cases)
  qed
  then show ?thesis by (simp add: list_all_iff)
qed

lemma kept_numbers:
  assumes "wf_frame df" and "k \<in> set (map fst df)" and "k \<in> set cols"
    and "numeric (df_col df k)"
  shows "list_all (\<lambda>x. x = Num) (map (\<lambda>i. df_col df k ! i) (complete_rows cols df))"
proof -
  have "df_col df k ! i = Num" if i: "i \<in> set (complete_rows cols df)" for i
  proof -
    from i have lt: "i < length (df_col df k)"
      using kept_in_range wf_frame_column(1) [OF assms(1,2)] by simp
    then have mem: "df_col df k ! i \<in> set (df_col df k)" by simp
    with assms(4) have "\<not> is_text (df_col df k ! i)" by (auto simp: numeric_def list_all_iff)
    moreover from i assms(3) have "df_col df k ! i \<noteq> NaN" by (rule kept_value)
    ultimately show ?thesis by (rule not_text_cases)
  qed
  then show ?thesis by (simp add: list_all_iff)
qed

text \<open>The sums on series of strings succeed and give strings; a series of strings that
  meets a series of numbers raises.\<close>

lemma add_str_text:
  assumes "list_all is_text a"
  shows "\<exists>r. add_str a t = Some r \<and> list_all is_text r \<and> length r = length a"
proof -
  from assms have "\<not> list_ex (\<lambda>x. x = Num) a"
    by (auto simp: list_all_iff list_ex_iff is_text_def)
  moreover from assms
  have "list_all is_text (map (\<lambda>x. case x of Str u \<Rightarrow> Str (u @ t) | _ \<Rightarrow> NaN) a)"
    by (auto simp: list_all_iff is_text_def split: cell.splits)
  ultimately show ?thesis by (simp add: add_str_def)
qed

lemma add_series_text:
  assumes "list_all is_text a" and "list_all is_text b" and "length a = length b"
  shows "\<exists>r. add_series a b = Some r \<and> list_all is_text r \<and> length r = length a"
proof -
  have both: "is_text x \<and> is_text y" if "(x, y) \<in> set (zip a b)" for x y
    using that assms(1,2) by (auto simp: list_all_iff dest: set_zip_leftD set_zip_rightD)
  have no: "\<not> list_ex (\<lambda>(x, y). (is_text x \<and> y = Num) \<or> (x = Num \<and> is_text y)) (zip a b)"
    using both is_text_simps(2) by (fastforce simp: list_ex_iff)
  have "is_text (case x of
                   NaN \<Rightarrow> NaN
                 | Str u \<Rightarrow> (case y of Str v \<Rightarrow> Str (u @ v) | _ \<Rightarrow> NaN)
                 | Num \<Rightarrow> (case y of Num \<Rightarrow> Num | _ \<Rightarrow> NaN))"
    if "(x, y) \<in> set (zip a b)" for x y
    using both [OF that] by (cases x; cases y) (simp_all add: is_text_simps)
  then have "list_all is_text
    (map (\<lambda>(x, y). case x of
                     NaN \<Rightarrow> NaN
                   | Str u \<Rightarrow> (case y of Str v \<Rightarrow> Str (u @ v) | _ \<Rightarrow> NaN)
                   | Num \<Rightarrow> (case y of Num \<Rightarrow> Num | _ \<Rightarrow> NaN)) (zip a b))"
    by (auto simp: list_all_iff)
  with no assms(3) show ?thesis by (simp add: add_series_def)
qed

lemma add_series_numbers:
  assumes "list_all is_text a" and "list_all (\<lambda>x. x = Num) b" and "length a = length b"
    and "a \<noteq> []"
  shows "add_series a b = None"
proof -
  from assms(3,4) obtain x xs y ys where ab: "a = x # xs" "b = y # ys"
    by (cases a; cases b) auto
  with assms(1,2) have "is_text x \<and> y = Num" by simp
  with ab show ?thesis by (simp add: add_series_def)
qed

text \<open>The message of the missing-columns error shows every missing column in quotes.\<close>

lemma starts_with_append: "starts_with p (p @ b)"
  by (induction p) auto

lemma starts_with_contains: "starts_with p s \<Longrightarrow> str_contains p s"
  by (cases s; cases p) auto

lemma str_contains_mid: "str_contains p (a @ p @ b)"
proof (induction a)
  case Nil
  show ?case by (simp add: starts_with_append starts_with_contains)
next
  case (Cons x a)
  then show ?case by simp
qed

lemma join_mid: "x \<in> set xs \<Longrightarrow> \<exists>a b. join sep xs = a @ x @ b"
proof (induction sep xs rule: join.induct)
  case (1 sep)
  then show ?case by simp
next
  case (2 sep y)
  then have "join sep [y] = [] @ x @ []" by simp
  then show ?case by blast
next
  case (3 sep y z zs)
  show ?case
  proof (cases "x = y")
    case True
    then have "join sep (y # z # zs) = [] @ x @ (sep @ join sep (z # zs))" by simp
    then show ?thesis by blast
  next
    case False
    with 3 obtain a b where "join sep (z # zs) = a @ x @ b" by auto
    then have "join sep (y # z # zs) = (y @ sep @ a) @ x @ b" by simp
    then show ?thesis by blast
  qed
qed

lemma py_str_list_names:
  assumes "c \<in> set xs"
  shows "str_contains ([CHR 0x27] @ c @ [CHR 0x27]) (pre @ py_str_list xs)"
proof -
  let ?q = "\<lambda>x. [CHR 0x27] @ x @ [CHR 0x27]"
  from assms have "?q c \<in> set (map ?q xs)" by simp
  then obtain a b where "join '', '' (map ?q xs) = a @ ?q c @ b"
    using join_mid by blast
  then have "pre @ py_str_list xs = (pre @ ''['' @ a) @ ?q c @ (b @ '']'')"
    by (simp add: py_str_list_def)
  then show ?thesis
    using str_contains_mid [of "?q c" "pre @ ''['' @ a" "b @ '']''"] by simp
qed

text \<open>The loader, once the three columns are known to be there.\<close>

lemma load_books_data_unfold:
  assumes "filter (\<lambda>col. col \<notin> set (df_columns df)) required_columns = []"
  shows "load_books_data (Inr df) =
     (if numeric (df_col df ''title'') then Inl PandasError
      else
        (case Option.bind
                (add_str (map (\<lambda>i. df_col df ''title'' ! i) (complete_rows required_columns df)) '' '')
                (\<lambda>t. Option.bind
                   (add_series t (map (\<lambda>i. df_col df ''author'' ! i) (complete_rows required_columns df)))
                   (\<lambda>ta. Option.bind (add_str ta '' '')
                      (\<lambda>tas. add_series tas
                         (map (\<lambda>i. df_col df ''description'' ! i)
                            (complete_rows required_columns df))))) of
           None \<Rightarrow> Inl PandasError
         | Some combined_text \<Rightarrow>
             if numeric (df_col df ''author'') then Inl PandasError
             else Inr (df_assign
                         (df_assign
                            (df_assign (dropna required_columns df) ''combined_text'' combined_text)
                            ''title''
                            (str_strip (map (\<lambda>i. df_col df ''title'' ! i)
                                          (complete_rows required_columns df))))
                         ''author''
                         (str_strip (map (\<lambda>i. df_col df ''author'' ! i)
                                       (complete_rows required_columns df))))))"
proof -
  from assms have "\<forall>col\<in>set required_columns. col \<in> set (df_columns df)"
    by (simp add: filter_empty_conv)
  then have mem:
    "''title'' \<in> set (map fst df)" "''author'' \<in> set (map fst df)"
    "''description'' \<in> set (map fst df)"
    by (simp_all add: required_columns_def df_columns_def)
  show ?thesis
    using assms
    by (simp add: load_books_data_def Let_def df_col_assign_other df_col_assign_same
        df_col_dropna [OF mem(1)] df_col_dropna [OF mem(2)] df_col_dropna [OF mem(3)]
        split: option.splits)
qed

lemma str_strip_text: "list_all is_text a \<Longrightarrow> list_all is_text (str_strip a)"
proof -
  assume a: "list_all is_text a"
  have "is_text (case x of Str u \<Rightarrow> Str (strip u) | _ \<Rightarrow> NaN)" if "x \<in> set a" for x
  proof -
    from that a have "is_text x" by (simp add: list_all_iff)
    then show ?thesis by (cases x) (simp_all add: is_text_simps)
  qed
  then show ?thesis by (simp add: str_strip_def list_all_iff)
qed

lemma load_books_data_text:
  assumes wf: "wf_frame df"
    and none: "filter (\<lambda>col. col \<notin> set (df_columns df)) required_columns = []"
    and tx: "\<not> numeric (df_col df ''title'')" "\<not> numeric (df_col df ''author'')"
      "\<not> numeric (df_col df ''description'')"
  shows "\<exists>df'. load_books_data (Inr df) = Inr df'
     \<and> df_col df' ''title'' =
         str_strip (map (\<lambda>i. df_col df ''title'' ! i) (complete_rows required_columns df))
     \<and> df_col df' ''author'' =
         str_strip (map (\<lambda>i. df_col df ''author'' ! i) (complete_rows required_columns df))
     \<and> df_col df' ''description'' =
         map (\<lambda>i. df_col df ''description'' ! i) (complete_rows required_columns df)
     \<and> list_all is_text (df_col df' ''title'')
     \<and> list_all is_text (df_col df' ''author'')
     \<and> list_all is_text (df_col df' ''description'')"
proof -
  let ?keep = "complete_rows required_columns df"
  let ?T = "map (\<lambda>i. df_col df ''title'' ! i) ?keep"
  let ?A = "map (\<lambda>i. df_col df ''author'' ! i) ?keep"
  let ?D = "map (\<lambda>i. df_col df ''description'' ! i) ?keep"
  from none have "\<forall>col\<in>set required_columns. col \<in> set (df_columns df)"
    by (simp add: filter_empty_conv)
  then have mem:
    "''title'' \<in> set (map fst df)" "''author'' \<in> set (map fst df)"
    "''description'' \<in> set (map fst df)"
    by (simp_all add: required_columns_def df_columns_def)
  have tT: "list_all is_text ?T"
    by (rule kept_text [OF wf mem(1) _ tx(1)]) (simp add: required_columns_def)
  have tA: "list_all is_text ?A"
    by (rule kept_text [OF wf mem(2) _ tx(2)]) (simp add: required_columns_def)
  have tD: "list_all is_text ?D"
    by (rule kept_text [OF wf mem(3) _ tx(3)]) (simp add: required_columns_def)
  from add_str_text [OF tT] obtain t where
    t: "add_str ?T '' '' = Some t" "list_all is_text t" "length t = length ?T" by blast
  from add_series_text [OF t(2) tA] t(3) obtain ta where
    ta: "add_series t ?A = Some ta" "list_all is_text ta" "length ta = length t" by auto
  from add_str_text [OF ta(2)] obtain tas where
    tas: "add_str ta '' '' = Some tas" "list_all is_text tas" "length tas = length ta" by blast
  from add_series_text [OF tas(2) tD] tas(3) ta(3) t(3) obtain ct where
    ct: "add_series tas ?D = Some ct" by auto
  let ?df' = "df_assign (df_assign (df_assign (dropna required_columns df) ''combined_text'' ct)
                ''title'' (str_strip ?T)) ''author'' (str_strip ?A)"
  have res: "load_books_data (Inr df) = Inr ?df'"
    by (simp add: load_books_data_unfold [OF none] tx t(1) ta(1) tas(1) ct)
  have ct': "df_col ?df' ''title'' = str_strip ?T"
    by (simp add: df_col_assign_other df_col_assign_same)
  have ca': "df_col ?df' ''author'' = str_strip ?A"
    by (simp add: df_col_assign_same)
  have cd': "df_col ?df' ''description'' = ?D"
    by (simp add: df_col_assign_other df_col_dropna [OF mem(3)])
  have "list_all is_text (df_col ?df' ''title'')"
    unfolding ct' using tT by (rule str_strip_text)
  moreover have "list_all is_text (df_col ?df' ''author'')"
    unfolding ca' using tA by (rule str_strip_text)
  moreover have "list_all is_text (df_col ?df' ''description'')"
    unfolding cd' by (rule tD)
  ultimately show ?thesis using res ct' ca' cd' by blast
qed

lemma load_books_data_numeric:
  assumes none: "filter (\<lambda>col. col \<notin> set (df_columns df)) required_columns = []"
    and num: "numeric (df_col df ''title'') \<or> numeric (df_col df ''author'')"
  shows "load_books_data (Inr df) = Inl PandasError"
  using num by (auto simp: load_books_data_unfold [OF none] split: option.splits)

lemma load_books_data_numeric_description:
  assumes wf: "wf_frame df"
    and none: "filter (\<lambda>col. col \<notin> set (df_columns df)) required_columns = []"
    and num: "numeric (df_col df ''description'')"
    and rows: "complete_rows required_columns df \<noteq> []"
  shows "load_books_data (Inr df) = Inl PandasError"
proof (cases "numeric (df_col df ''title'') \<or> numeric (df_col df ''author'')")
  case True
  with none show ?thesis by (rule load_books_data_numeric)
next
  case False
  then have tx: "\<not> numeric (df_col df ''title'')" "\<not> numeric (df_col df ''author'')"
    by simp_all
  let ?keep = "complete_rows required_columns df"
  let ?T = "map (\<lambda>i. df_col df ''title'' ! i) ?keep"
  let ?A = "map (\<lambda>i. df_col df ''author'' ! i) ?keep"
  let ?D = "map (\<lambda>i. df_col df ''description'' ! i) ?keep"
  from none have "\<forall>col\<in>set required_columns. col \<in> set (df_columns df)"
    by (simp add: filter_empty_conv)
  then have mem:
    "''title'' \<in> set (map fst df)" "''author'' \<in> set (map fst df)"
    "''description'' \<in> set (map fst df)"
    by (simp_all add: required_columns_def df_columns_def)
  have tT: "list_all is_text ?T"
    by (rule kept_text [OF wf mem(1) _ tx(1)]) (simp add: required_columns_def)
  have tA: "list_all is_text ?A"
    by (rule kept_text [OF wf mem(2) _ tx(2)]) (simp add: required_columns_def)
  have nD: "list_all (\<lambda>x. x = Num) ?D"
    by (rule kept_numbers [OF wf mem(3) _ num]) (simp add: required_columns_def)
  from add_str_text [OF tT] obtain t where
    t: "add_str ?T '' '' = Some t" "list_all is_text t" "length t = length ?T" by blast
  from add_series_text [OF t(2) tA] t(3) obtain ta where
    ta: "add_series t ?A = Some ta" "list_all is_text ta" "length ta = length t" by auto
  from add_str_text [OF ta(2)] obtain tas where
    tas: "add_str ta '' '' = Some tas" "list_all is_text tas" "length tas = length ta" by blast
  from tas(3) ta(3) t(3) rows have "length tas = length ?D" "tas \<noteq> []" by auto
  with tas(2) nD have "add_series tas ?D = None" by (intro add_series_numbers)
  then show ?thesis
    by (simp add: load_books_data_unfold [OF none] tx t(1) ta(1) tas(1))
qed

text \<open>
  C4. \<open>load_books_data\<close> on a frame as \<open>pd.read_csv\<close> gives it. When one of \<open>title\<close>,
  \<open>author\<close>, \<open>description\<close> is not a column, it raises; the message lists the missing
  columns, each in quotes. When the three are text columns it succeeds: the rows kept are
  those with a value in all three columns, in their order, so every kept title, author and
  description is a string and not missing; titles and authors are trimmed, descriptions
  are as read. When the title or the author column is numeric, as a column whose cells are
  all missing is, it raises instead of dropping rows, and so it does on a numeric
  description column when a row is kept. A failure of the reader itself is raised again
  under the loader's message.
\<close>

theorem load_books_data_cleans:
  assumes "wf_frame df"
  shows
  "load_books_data (Inl e) = Inl (LoadError (''Error loading books data: '' @ e))
   \<and> (filter (\<lambda>col. col \<notin> set (df_columns df)) required_columns \<noteq> [] \<longrightarrow>
        load_books_data (Inr df) =
          Inl (LoadError (''Error loading books data: Missing required columns: '' @
               py_str_list (filter (\<lambda>col. col \<notin> set (df_columns df)) required_columns)))
        \<and> list_all
            (\<lambda>col. str_contains ([CHR 0x27] @ col @ [CHR 0x27])
               (''Error loading books data: Missing required columns: '' @
                py_str_list (filter (\<lambda>col. col \<notin> set (df_columns df)) required_columns)))
            (filter (\<lambda>col. col \<notin> set (df_columns df)) required_columns))
   \<and> (filter (\<lambda>col. col \<notin> set (df_columns df)) required_columns = []
        \<and> \<not> numeric (df_col df ''title'') \<and> \<not> numeric (df_col df ''author'')
        \<and> \<not> numeric (df_col df ''description'') \<longrightarrow>
        (\<exists>df'. load_books_data (Inr df) = Inr df'
           \<and> df_col df' ''title'' =
               str_strip (map (\<lambda>i. df_col df ''title'' ! i)
                 (filter (\<lambda>i. df_col df ''title'' ! i \<noteq> NaN \<and> df_col df ''author'' ! i \<noteq> NaN
                              \<and> df_col df ''description'' ! i \<noteq> NaN) [0..<df_len df]))
           \<and> df_col df' ''author'' =
               str_strip (map (\<lambda>i. df_col df ''author'' ! i)
                 (filter (\<lambda>i. df_col df ''title'' ! i \<noteq> NaN \<and> df_col df ''author'' ! i \<noteq> NaN
                              \<and> df_col df ''description'' ! i \<noteq> NaN) [0..<df_len df]))
           \<and> df_col df' ''description'' =
               map (\<lambda>i. df_col df ''description'' ! i)
                 (filter (\<lambda>i. df_col df ''title'' ! i \<noteq> NaN \<and> df_col df ''author'' ! i \<noteq> NaN
                              \<and> df_col df ''description'' ! i \<noteq> NaN) [0..<df_len df])
           \<and> list_all is_text (df_col df' ''title'')
           \<and> list_all is_text (df_col df' ''author'')
           \<and> list_all is_text (df_col df' ''description'')))
   \<and> (filter (\<lambda>col. col \<notin> set (df_columns df)) required_columns = []
        \<and> (numeric (df_col df ''title'') \<or> numeric (df_col df ''author'')) \<longrightarrow>
        load_books_data (Inr df) = Inl PandasError)
   \<and> (filter (\<lambda>col. col \<notin> set (df_columns df)) required_columns = []
        \<and> numeric (df_col df ''description'')
        \<and> filter (\<lambda>i. df_col df ''title'' ! i \<noteq> NaN \<and> df_col df ''author'' ! i \<noteq> NaN
                      \<and> df_col df ''description'' ! i \<noteq> NaN) [0..<df_len df] \<noteq> [] \<longrightarrow>
        load_books_data (Inr df) = Inl PandasError)"
proof -
  let ?missing = "filter (\<lambda>col. col \<notin> set (df_columns df)) required_columns"
  let ?keep = "filter (\<lambda>i. df_col df ''title'' ! i \<noteq> NaN \<and> df_col df ''author'' ! i \<noteq> NaN
                 \<and> df_col df ''description'' ! i \<noteq> NaN) [0..<df_len df]"
  have keep: "complete_rows required_columns df = ?keep"
    by (simp add: complete_rows_def required_columns_def)
  have a: "load_books_data (Inl e) = Inl (LoadError (''Error loading books data: '' @ e))"
    by (simp add: load_books_data_def)
  have b1: "load_books_data (Inr df) =
      Inl (LoadError (''Error loading books data: Missing required columns: '' @
                      py_str_list ?missing))"
    if "?missing \<noteq> []"
    using that by (simp add: load_books_data_def Let_def)
  have b2: "list_all
      (\<lambda>col. str_contains ([CHR 0x27] @ col @ [CHR 0x27])
         (''Error loading books data: Missing required columns: '' @ py_str_list ?missing))
      ?missing"
    unfolding list_all_iff using py_str_list_names by blast
  have c: "\<exists>df'. load_books_data (Inr df) = Inr df'
           \<and> df_col df' ''title'' = str_strip (map (\<lambda>i. df_col df ''title'' ! i) ?keep)
           \<and> df_col df' ''author'' = str_strip (map (\<lambda>i. df_col df ''author'' ! i) ?keep)
           \<and> df_col df' ''description'' = map (\<lambda>i. df_col df ''description'' ! i) ?keep
           \<and> list_all is_text (df_col df' ''title'')
           \<and> list_all is_text (df_col df' ''author'')
           \<and> list_all is_text (df_col df' ''description'')"
    if "?missing = []" "\<not> numeric (df_col df ''title'')" "\<not> numeric (df_col df ''author'')"
      "\<not> numeric (df_col df ''description'')"
    using load_books_data_text [OF assms that] unfolding keep .
  have d: "load_books_data (Inr df) = Inl PandasError"
    if "?missing = []" "numeric (df_col df ''title'') \<or> numeric (df_col df ''author'')"
    using that by (rule load_books_data_numeric)
  have f: "load_books_data (Inr df) = Inl PandasError"
    if "?missing = []" "numeric (df_col df ''description'')" "?keep \<noteq> []"
    using load_books_data_numeric_description [OF assms that(1,2)] that(3) keep by simp
  from a b1 b2 c d f show ?thesis by blast
qed

theorem load_books_data_cleans_witness:
  "wf_frame three_rows
   \<and> load_books_data (Inr three_rows) =
       Inr [(''title'', [Str ''Dune'', Str ''Emma'']),
            (''year'', [Num, NaN]),
            (''author'', [Str ''Herbert'', Str ''Austen'']),
            (''description'', [Str ''sand'', Str ''love'']),
            (''combined_text'', [Str '' Dune  Herbert sand'', Str ''Emma  Austen love''])]
   \<and> wf_frame no_author
   \<and> load_books_data (Inr no_author) =
       Inl (LoadError
              (''Error loading books data: Missing required columns: ['' @ [CHR 0x27] @ ''author''
               @ [CHR 0x27] @ '', '' @ [CHR 0x27] @ ''description'' @ [CHR 0x27] @ '']''))
   \<and> wf_frame no_titles
   \<and> numeric (df_col no_titles ''title'')
   \<and> load_books_data (Inr no_titles) = Inl PandasError"
proof -
  have w1: "wf_frame three_rows" by code_simp
  have w2: "wf_frame no_author" by code_simp
  have w3: "wf_frame no_titles" by code_simp
  have m2: "filter (\<lambda>col. col \<notin> set (df_columns no_author)) required_columns =
      [''author'', ''description'']"
    by code_simp
  have m3: "filter (\<lambda>col. col \<notin> set (df_columns no_titles)) required_columns = []"
    by code_simp
  have n3: "numeric (df_col no_titles ''title'')" by code_simp
  have p: "py_str_list [''author'', ''description''] =
      ''['' @ [CHR 0x27] @ ''author'' @ [CHR 0x27] @ '', '' @ [CHR 0x27] @ ''description''
        @ [CHR 0x27] @ '']''"
    by code_simp
  have r1: "load_books_data (Inr three_rows) =
       Inr [(''title'', [Str ''Dune'', Str ''Emma'']),
            (''year'', [Num, NaN]),
            (''author'', [Str ''Herbert'', Str ''Austen'']),
            (''description'', [Str ''sand'', Str ''love'']),
            (''combined_text'', [Str '' Dune  Herbert sand'', Str ''Emma  Austen love''])]"
    by code_simp
  from load_books_data_cleans [OF w2, of "[]"] m2 p
  have r2: "load_books_data (Inr no_author) =
       Inl (LoadError
              (''Error loading books data: Missing required columns: ['' @ [CHR 0x27] @ ''author''
               @ [CHR 0x27] @ '', '' @ [CHR 0x27] @ ''description'' @ [CHR 0x27] @ '']''))"
    by simp
  from load_books_data_cleans [OF w3, of "[]"] m3 n3
  have r3: "load_books_data (Inr no_titles) = Inl PandasError"
    by blast
  from w1 r1 w2 r2 w3 n3 r3 show ?thesis by blast
qed

text \<open>
  A kept title can be empty: a title of two blanks is a value, so its row is kept, and
  trimming leaves the empty string. And rows with a missing title are not always dropped:
  when every title is missing the title column is numeric and the loader raises.
\<close>

theorem load_books_data_empty_title_counterexample:
  "wf_frame blank_title
   \<and> load_books_data (Inr blank_title) =
       Inr [(''title'', [Str []]),
            (''author'', [Str ''a'']),
            (''description'', [Str ''d'']),
            (''combined_text'', [Str ''   a d''])]
   \<and> wf_frame no_titles
   \<and> load_books_data (Inr no_titles) = Inl PandasError"
  by code_simp

text \<open>The threshold lies above one hundredth.\<close>

lemma min_similarity_floor: "1 / 100 < min_similarity"
  by (simp add: min_similarity_def)

lemma py_take_length: "0 \<le> k \<Longrightarrow> length (py_take k xs) \<le> nat k"
  by (simp add: py_take_def)

lemma py_take_nonneg: "0 \<le> k \<Longrightarrow> py_take k xs = take (nat k) xs"
  by (simp add: py_take_def)

lemma py_take_subset: "set (py_take k xs) \<subseteq> set xs"
  by (auto simp: py_take_def dest: in_set_takeD)

lemma py_take_sorted_wrt: "sorted_wrt R xs \<Longrightarrow> sorted_wrt R (py_take k xs)"
  by (simp add: py_take_def)

lemma py_take_distinct: "distinct xs \<Longrightarrow> distinct (py_take k xs)"
  by (simp add: py_take_def)

text \<open>An argsort result holds exactly the indices of the scores, each once, and reading
  the scores along it gives the sorted scores.\<close>

lemma is_argsort_set:
  assumes "is_argsort idxs xs"
  shows "set idxs = {0..<length xs}" and "distinct idxs"
proof -
  from assms have len: "length idxs = length xs" and sub: "{0..<length xs} \<subseteq> set idxs"
    by (auto simp: is_argsort_def list_all_iff)
  have "card (set idxs) \<le> length idxs" by (rule card_length)
  with len have le: "card (set idxs) \<le> card {0..<length xs}" by simp
  have "{0..<length xs} = set idxs"
    by (rule card_seteq [OF _ sub le]) simp
  then show s: "set idxs = {0..<length xs}" by simp
  then have "card (set idxs) = length idxs" using len by simp
  then show "distinct idxs" by (rule card_distinct)
qed

lemma is_argsort_sort:
  assumes "is_argsort idxs xs"
  shows "map (\<lambda>i. xs ! i) idxs = sort xs"
proof -
  from is_argsort_set [OF assms] have "mset idxs = mset [0..<length xs]"
    by (metis distinct_upt set_eq_iff_mset_eq_distinct set_upt)
  then have "mset (map (\<lambda>i. xs ! i) idxs) = mset (map (\<lambda>i. xs ! i) [0..<length xs])"
    by simp
  also have "map (\<lambda>i. xs ! i) [0..<length xs] = xs" by (rule map_nth)
  finally have m: "mset (map (\<lambda>i. xs ! i) idxs) = mset xs" .
  from assms have srt: "sorted (map (\<lambda>i. xs ! i) idxs)" by (simp add: is_argsort_def)
  have "sort xs = map (\<lambda>i. xs ! i) idxs"
    using m srt by (rule properties_for_sort)
  then show ?thesis by simp
qed

lemma stable_argsort_is_argsort: "is_argsort (stable_argsort xs) xs"
  by (simp add: is_argsort_def stable_argsort_def list_all_iff)

text \<open>The loop of \<open>find_similar_books\<close> over indices that are in range.\<close>

lemma recommend_in_range:
  assumes "\<forall>i\<in>set idxs. i < length similarities" and "length similarities = df_len df"
  shows "recommend similarities df idxs =
           Inr (map (entry_of similarities df)
                  (filter (\<lambda>idx. similarities ! idx > min_similarity) idxs))"
  using assms by (induction idxs) (auto simp: entry_of_def)

lemma score_of_entry: "score_of (entry_of similarities df idx) = similarities ! idx"
  by (simp add: score_of_def entry_of_def)

text \<open>An insertion sort of increasing indices leaves equal keys in increasing index order.\<close>

lemma insort_key_ties:
  fixes f :: "nat \<Rightarrow> rat"
  assumes "sorted_wrt (\<lambda>i j. f i < f j \<or> (f i = f j \<and> i < j)) ys" and "\<forall>y\<in>set ys. x < y"
  shows "sorted_wrt (\<lambda>i j. f i < f j \<or> (f i = f j \<and> i < j)) (insort_key f x ys)"
  using assms
proof (induction ys)
  case Nil
  then show ?case by simp
next
  case (Cons y ys)
  show ?case
  proof (cases "f x \<le> f y")
    case True
    have "f x < f z \<or> (f x = f z \<and> x < z)" if "z \<in> set (y # ys)" for z
    proof -
      from that Cons.prems(1) have "f y \<le> f z" by auto
      with True have "f x \<le> f z" by simp
      moreover from that Cons.prems(2) have "x < z" by auto
      ultimately show ?thesis by auto
    qed
    with True Cons.prems(1) show ?thesis by simp
  next
    case False
    from Cons have ih: "sorted_wrt (\<lambda>i j. f i < f j \<or> (f i = f j \<and> i < j)) (insort_key f x ys)"
      by simp
    from False have "f y < f x" by simp
    with False Cons.prems(1) ih show ?thesis by (auto simp: set_insort_key)
  qed
qed

lemma sort_key_ties:
  fixes f :: "nat \<Rightarrow> rat"
  assumes "sorted_wrt (<) xs"
  shows "sorted_wrt (\<lambda>i j. f i < f j \<or> (f i = f j \<and> i < j)) (sort_key f xs)"
  using assms
proof (induction xs)
  case Nil
  then show ?case by simp
next
  case (Cons x xs)
  then have "sorted_wrt (\<lambda>i j. f i < f j \<or> (f i = f j \<and> i < j)) (sort_key f xs)"
    and "\<forall>y\<in>set (sort_key f xs). x < y"
    by auto
  then show ?case by (simp add: insort_key_ties)
qed

lemma ranked_indices_stable:
  "sorted_wrt (\<lambda>i j. xs ! j < xs ! i \<or> (xs ! j = xs ! i \<and> j < i))
     (ranked_indices stable_argsort xs k)"
proof -
  have "sorted_wrt (\<lambda>i j. xs ! i < xs ! j \<or> (xs ! i = xs ! j \<and> i < j)) (stable_argsort xs)"
    unfolding stable_argsort_def by (rule sort_key_ties) simp
  then have "sorted_wrt (\<lambda>i j. xs ! j < xs ! i \<or> (xs ! j = xs ! i \<and> j < i))
      (rev (stable_argsort xs))"
    by (simp add: sorted_wrt_rev)
  then show ?thesis
    unfolding ranked_indices_def similar_indices_def
    by (intro sorted_wrt_filter py_take_sorted_wrt)
qed

text \<open>
  C1. Let the catalog be a well-formed frame with the three required columns, let the
  scores of a query be one per book, let \<open>argsort\<close> return the indices in ascending order
  of score, and let \<open>k\<close> not be negative. Then \<open>find_similar_books\<close> returns
  the books at the indices \<open>ranked_indices\<close>: at most \<open>k\<close> entries, each with a score above
  the threshold and so above 0.01, in descending order of score; their scores are the \<open>k\<close>
  highest scores, less those not above the threshold; and when no score is above the
  threshold, nothing is returned. The order among equal scores is the one the reversed
  \<open>argsort\<close> leaves: with an \<open>argsort\<close> that keeps equal scores in index order, of two
  returned books with equal scores the one later in the catalog comes first.
\<close>

theorem find_similar_books_ranked:
  assumes "is_argsort (sorter (scores query)) (scores query)"
    and "length (scores query) = df_len books"
    and "0 \<le> k"
    and "wf_frame books"
    and "list_all (\<lambda>col. col \<in> set (df_columns books)) required_columns"
  shows
  "(\<exists>recs. find_similar_books sorter scores books query k = Inr recs
      \<and> recs = map (entry_of (scores query) books) (ranked_indices sorter (scores query) k)
      \<and> length recs \<le> nat k
      \<and> list_all (\<lambda>r. 1 / 100 < score_of r) recs
      \<and> sorted_wrt (\<lambda>a b. score_of b \<le> score_of a) recs
      \<and> map score_of recs =
          filter (\<lambda>s. min_similarity < s) (take (nat k) (rev (sort (scores query))))
      \<and> (list_all (\<lambda>s. \<not> min_similarity < s) (scores query) \<longrightarrow> recs = []))
   \<and> is_argsort (stable_argsort (scores query)) (scores query)
   \<and> sorted_wrt (\<lambda>i j. scores query ! j < scores query ! i
                      \<or> (scores query ! j = scores query ! i \<and> j < i))
        (ranked_indices stable_argsort (scores query) k)"
proof -
  let ?sims = "scores query"
  let ?idxs = "sorter ?sims"
  let ?T = "py_take k (rev ?idxs)"
  let ?ranked = "ranked_indices sorter ?sims k"
  let ?recs = "map (entry_of ?sims books) ?ranked"
  have ranked: "?ranked = filter (\<lambda>idx. ?sims ! idx > min_similarity) ?T"
    by (simp add: ranked_indices_def similar_indices_def)
  have T: "?T = take (nat k) (rev ?idxs)"
    using assms(3) by (rule py_take_nonneg)
  have "set ?T \<subseteq> set (rev ?idxs)" by (rule py_take_subset)
  with is_argsort_set(1) [OF assms(1)] have range: "\<forall>i\<in>set ?T. i < length ?sims"
    by auto
  have res: "find_similar_books sorter scores books query k = Inr ?recs"
    using recommend_in_range [OF range assms(2)]
    by (simp add: find_similar_books_def similar_indices_def ranked Let_def)
  have "length ?ranked \<le> length ?T" unfolding ranked by (rule length_filter_le)
  also have "\<dots> \<le> nat k" using assms(3) by (rule py_take_length)
  finally have len: "length ?recs \<le> nat k" by simp
  have above: "list_all (\<lambda>r. 1 / 100 < score_of r) ?recs"
  proof -
    have "1 / 100 < ?sims ! i" if "i \<in> set ?ranked" for i
    proof -
      from that have "min_similarity < ?sims ! i" unfolding ranked by simp
      with min_similarity_floor show ?thesis by (rule less_trans)
    qed
    then show ?thesis by (simp add: list_all_iff score_of_entry)
  qed
  have scores: "map score_of ?recs =
      filter (\<lambda>s. min_similarity < s) (take (nat k) (rev (sort ?sims)))"
  proof -
    have "map score_of ?recs = map (\<lambda>i. ?sims ! i) ?ranked"
      by (simp add: score_of_entry comp_def)
    also have "\<dots> = filter (\<lambda>s. min_similarity < s) (map (\<lambda>i. ?sims ! i) ?T)"
      unfolding ranked by (simp add: filter_map comp_def)
    also have "map (\<lambda>i. ?sims ! i) ?T = take (nat k) (rev (map (\<lambda>i. ?sims ! i) ?idxs))"
      unfolding T by (simp add: take_map rev_map)
    also have "map (\<lambda>i. ?sims ! i) ?idxs = sort ?sims"
      using assms(1) by (rule is_argsort_sort)
    finally show ?thesis .
  qed
  have desc: "sorted_wrt (\<lambda>a b. score_of b \<le> score_of a) ?recs"
  proof -
    have "sorted_wrt (\<lambda>x y. y \<le> x) (rev (sort ?sims))"
      by (simp add: sorted_wrt_rev)
    then have "sorted_wrt (\<lambda>x y. y \<le> x) (take (nat k) (rev (sort ?sims)))"
      by (rule sorted_wrt_take)
    then have "sorted_wrt (\<lambda>x y. y \<le> x)
        (filter (\<lambda>s. min_similarity < s) (take (nat k) (rev (sort ?sims))))"
      by (rule sorted_wrt_filter)
    then have "sorted_wrt (\<lambda>x y. y \<le> x) (map score_of ?recs)"
      unfolding scores .
    then show ?thesis by (simp only: sorted_wrt_map)
  qed
  have none: "?recs = []" if all: "list_all (\<lambda>s. \<not> min_similarity < s) ?sims"
  proof -
    have "\<not> min_similarity < s" if "s \<in> set (take (nat k) (rev (sort ?sims)))" for s
    proof -
      from that have "s \<in> set (rev (sort ?sims))" by (rule in_set_takeD)
      then have "s \<in> set ?sims" by simp
      with all show ?thesis by (simp add: list_all_iff)
    qed
    then have "filter (\<lambda>s. min_similarity < s) (take (nat k) (rev (sort ?sims))) = []"
      by (simp add: filter_empty_conv)
    with scores have "map score_of ?recs = []" by simp
    then show ?thesis by (simp only: map_is_Nil_conv)
  qed
  from res len above desc scores none
  have first: "\<exists>recs. find_similar_books sorter scores books query k = Inr recs
      \<and> recs = ?recs
      \<and> length recs \<le> nat k
      \<and> list_all (\<lambda>r. 1 / 100 < score_of r) recs
      \<and> sorted_wrt (\<lambda>a b. score_of b \<le> score_of a) recs
      \<and> map score_of recs =
          filter (\<lambda>s. min_similarity < s) (take (nat k) (rev (sort ?sims)))
      \<and> (list_all (\<lambda>s. \<not> min_similarity < s) ?sims \<longrightarrow> recs = [])"
    by blast
  from first stable_argsort_is_argsort [of ?sims] ranked_indices_stable [of ?sims k]
  show ?thesis by (intro conjI)
qed

theorem find_similar_books_ranked_witness:
  "is_argsort (stable_argsort (some_scores ''dune'')) (some_scores ''dune'')
   \<and> length (some_scores ''dune'') = df_len three_books
   \<and> (0::int) \<le> 2
   \<and> wf_frame three_books
   \<and> list_all (\<lambda>col. col \<in> set (df_columns three_books)) required_columns
   \<and> ranked_indices stable_argsort (some_scores ''dune'') 2 = [2, 0]
   \<and> find_similar_books stable_argsort some_scores three_books ''dune'' 2 =
       Inr [\<lparr>title = Str ''C'', author = Str ''c'', description = Str ''z'',
              extra = similarity_score (3 / 4)\<rparr>,
            \<lparr>title = Str ''A'', author = Str ''a'', description = Str ''x'',
              extra = similarity_score (1 / 2)\<rparr>]"
proof -
  have h1: "is_argsort (stable_argsort (some_scores ''dune'')) (some_scores ''dune'')"
    by code_simp
  have h2: "length (some_scores ''dune'') = df_len three_books" by code_simp
  have h3: "(0::int) \<le> 2" by simp
  have h4: "wf_frame three_books" by code_simp
  have h5: "list_all (\<lambda>col. col \<in> set (df_columns three_books)) required_columns"
    by code_simp
  have r: "ranked_indices stable_argsort (some_scores ''dune'') 2 = [2, 0]" by code_simp
  have e: "map (entry_of (some_scores ''dune'') three_books) [2, 0] =
       [\<lparr>title = Str ''C'', author = Str ''c'', description = Str ''z'',
          extra = similarity_score (3 / 4)\<rparr>,
        \<lparr>title = Str ''A'', author = Str ''a'', description = Str ''x'',
          extra = similarity_score (1 / 2)\<rparr>]"
    by code_simp
  from find_similar_books_ranked [of stable_argsort some_scores "''dune''" three_books 2, OF h1 h2 h3 h4 h5] r e
  have "find_similar_books stable_argsort some_scores three_books ''dune'' 2 =
       Inr [\<lparr>title = Str ''C'', author = Str ''c'', description = Str ''z'',
              extra = similarity_score (3 / 4)\<rparr>,
            \<lparr>title = Str ''A'', author = Str ''a'', description = Str ''x'',
              extra = similarity_score (1 / 2)\<rparr>]"
    by auto
  with h1 h2 h3 h4 h5 r show ?thesis by blast
qed

text \<open>
  Two books with equal scores come back in the reverse of their catalog order, and with
  \<open>k = -1\<close> the slice keeps all indices but the last, so one entry is returned.
\<close>

theorem find_similar_books_ties_counterexample:
  "is_argsort (stable_argsort (tied_scores ''q'')) (tied_scores ''q'')
   \<and> length (tied_scores ''q'') = df_len two_books
   \<and> wf_frame two_books
   \<and> list_all (\<lambda>col. col \<in> set (df_columns two_books)) required_columns
   \<and> find_similar_books stable_argsort tied_scores two_books ''q'' 2 =
       Inr [\<lparr>title = Str ''B'', author = Str ''b'', description = Str ''y'',
              extra = similarity_score (1 / 2)\<rparr>,
            \<lparr>title = Str ''A'', author = Str ''a'', description = Str ''x'',
              extra = similarity_score (1 / 2)\<rparr>]
   \<and> find_similar_books stable_argsort tied_scores two_books ''q'' (- 1) =
       Inr [\<lparr>title = Str ''B'', author = Str ''b'', description = Str ''y'',
              extra = similarity_score (1 / 2)\<rparr>]
   \<and> (case find_similar_books stable_argsort tied_scores two_books ''q'' (- 1) of
         Inl e \<Rightarrow> False
       | Inr recs \<Rightarrow> - 1 < int (length recs))"
  by code_simp

end
